theory Spec2Isabelle
  imports Main "HOL-Library.AList" "HOL-Library.Multiset"
begin

section \<open>Values, documents and exceptions\<close>

text \<open>
  The exceptions the modelled code can raise. \<^verbatim>\<open>WriteError\<close> stands for the errors the
  database driver raises when the server rejects a write (a validator or a unique index),
  \<^verbatim>\<open>OperationFailure\<close> for a rejected aggregation.
\<close>

datatype py_error =
    TypeError
  | KeyError string
  | ValueError
  | IndexError
  | AttributeError
  | FileNotFoundError
  | InvalidId
  | WriteError
  | OperationFailure

text \<open>
  A \<^verbatim>\<open>datetime\<close> without time zone and with zero microseconds, as
  \<^verbatim>\<open>strptime\<close> with the format \<^verbatim>\<open>%Y-%m-%dT%H:%M:%SZ\<close> builds it.
\<close>

record datetime =
  year :: nat
  month :: nat
  day :: nat
  hour :: nat
  minute :: nat
  second :: nat

text \<open>
  The values of a document, as \<^verbatim>\<open>json.load\<close> delivers them and as the driver stores them:
  \<^verbatim>\<open>None\<close>, booleans, integers (unbounded, as in Python), strings, nested documents and
  arrays, and the two native types the loaders produce, \<^verbatim>\<open>ObjectId\<close> and
  \<^verbatim>\<open>datetime\<close>. Floating point numbers are left out. A document is a Python \<^verbatim>\<open>dict\<close>:
  an association list in insertion order; \<^verbatim>\<open>d[k] = v\<close> is \<^const>\<open>AList.update\<close>, which
  overwrites in place or appends. Strings are lists of 8-bit characters.
\<close>

datatype val =
    VNull
  | VBool bool
  | VInt int
  | VStr string
  | VOid string
  | VDate datetime
  | VDoc "(string \<times> val) list"
  | VList "val list"

type_synonym document = "(string \<times> val) list"

type_synonym collection = "document list"

text \<open>\<^verbatim>\<open>d[k]\<close> raises KeyError for a missing key; \<^verbatim>\<open>d.get(k)\<close> gives \<^verbatim>\<open>None\<close>.\<close>

definition getitem :: "document \<Rightarrow> string \<Rightarrow> py_error + val" where
  "getitem d k = (case map_of d k of None \<Rightarrow> Inl (KeyError k) | Some v \<Rightarrow> Inr v)"

definition dict_get :: "document \<Rightarrow> string \<Rightarrow> val" where
  "dict_get d k = (case map_of d k of None \<Rightarrow> VNull | Some v \<Rightarrow> v)"

section \<open>The database server's comparison order\<close>

text \<open>
  The server compares values of different types by type first (null, numbers, strings,
  documents, arrays, object ids, booleans, dates, in this order) and values of one type
  by value; documents are compared pair by pair (type, then key, then value), a document
  that ends first being smaller, and arrays element by element.
\<close>

datatype ordering = LT | EQ | GT

definition cmp_nat :: "nat \<Rightarrow> nat \<Rightarrow> ordering" where
  "cmp_nat a b = (if a < b then LT else if a = b then EQ else GT)"

definition cmp_int :: "int \<Rightarrow> int \<Rightarrow> ordering" where
  "cmp_int a b = (if a < b then LT else if a = b then EQ else GT)"

definition thenc :: "ordering \<Rightarrow> ordering \<Rightarrow> ordering" where
  "thenc a b = (case a of EQ \<Rightarrow> b | _ \<Rightarrow> a)"

fun cmp_str :: "string \<Rightarrow> string \<Rightarrow> ordering" where
  "cmp_str [] [] = EQ"
| "cmp_str [] (y # ys) = LT"
| "cmp_str (x # xs) [] = GT"
| "cmp_str (x # xs) (y # ys) = thenc (cmp_nat (of_char x) (of_char y)) (cmp_str xs ys)"

definition cmp_date :: "datetime \<Rightarrow> datetime \<Rightarrow> ordering" where
  "cmp_date s t =
     thenc (cmp_nat (year s) (year t)) (thenc (cmp_nat (month s) (month t))
       (thenc (cmp_nat (day s) (day t)) (thenc (cmp_nat (hour s) (hour t))
          (thenc (cmp_nat (minute s) (minute t)) (cmp_nat (second s) (second t))))))"

fun bson_rank :: "val \<Rightarrow> nat" where
  "bson_rank VNull = 1"
| "bson_rank (VInt n) = 2"
| "bson_rank (VStr s) = 3"
| "bson_rank (VDoc d) = 4"
| "bson_rank (VList l) = 5"
| "bson_rank (VOid s) = 7"
| "bson_rank (VBool b) = 8"
| "bson_rank (VDate t) = 9"

fun scalar_cmp :: "val \<Rightarrow> val \<Rightarrow> ordering" where
  "scalar_cmp (VInt m) (VInt n) = cmp_int m n"
| "scalar_cmp (VStr s) (VStr t) = cmp_str s t"
| "scalar_cmp (VOid s) (VOid t) = cmp_str s t"
| "scalar_cmp (VBool p) (VBool q) = cmp_nat (of_bool p) (of_bool q)"
| "scalar_cmp (VDate s) (VDate t) = cmp_date s t"
| "scalar_cmp a b = cmp_nat (bson_rank a) (bson_rank b)"

function (sequential) bson_cmp :: "val \<Rightarrow> val \<Rightarrow> ordering"
  and fields_cmp :: "(string \<times> val) list \<Rightarrow> (string \<times> val) list \<Rightarrow> ordering"
  and elems_cmp :: "val list \<Rightarrow> val list \<Rightarrow> ordering" where
  "bson_cmp (VDoc d) (VDoc e) = fields_cmp d e"
| "bson_cmp (VList k) (VList l) = elems_cmp k l"
| "bson_cmp a b = scalar_cmp a b"
| "fields_cmp [] [] = EQ"
| "fields_cmp [] (q # qs) = LT"
| "fields_cmp (p # ps) [] = GT"
| "fields_cmp ((j, v) # ps) ((k, w) # qs) =
     thenc (cmp_nat (bson_rank v) (bson_rank w))
       (thenc (cmp_str j k) (thenc (bson_cmp v w) (fields_cmp ps qs)))"
| "elems_cmp [] [] = EQ"
| "elems_cmp [] (y # ys) = LT"
| "elems_cmp (x # xs) [] = GT"
| "elems_cmp (x # xs) (y # ys) = thenc (bson_cmp x y) (elems_cmp xs ys)"
  by pat_completeness auto
termination
  by (relation "measure (\<lambda>x. case x of
        Inl (a, b) \<Rightarrow> 2 * size a + 1
      | Inr (Inl (d, e)) \<Rightarrow> 2 * size (VDoc d)
      | Inr (Inr (k, l)) \<Rightarrow> 2 * size (VList k))") auto

section \<open>ID generator: \<^verbatim>\<open>generate_id_from_field\<close> (\<^verbatim>\<open>scripts/script.py\<close>)\<close>

text \<open>
  The pipeline is one \<^verbatim>\<open>$group\<close> stage with \<^verbatim>\<open>_id: None\<close> and the accumulator
  \<^verbatim>\<open>$max\<close> over \<^verbatim>\<open>"$" + field\<close>. On the server, a \<^verbatim>\<open>$group\<close> over no documents
  yields no group; over at least one document it yields the single group of key null.
  \<^verbatim>\<open>$max\<close> skips the documents where the field is missing or null, takes the greatest of
  the other values in the server's comparison order, and is null when every document was
  skipped. The field is a top-level field name.
\<close>

definition field_values :: "collection \<Rightarrow> string \<Rightarrow> val list" where
  "field_values docs field =
     concat (map (\<lambda>d. case map_of d field of
                          None \<Rightarrow> []
                        | Some VNull \<Rightarrow> []
                        | Some v \<Rightarrow> [v]) docs)"

definition bson_max :: "val \<Rightarrow> val \<Rightarrow> val" where
  "bson_max a b = (if bson_cmp a b = LT then b else a)"

definition dollar_max :: "val list \<Rightarrow> val" where
  "dollar_max vs = (case vs of [] \<Rightarrow> VNull | v # rest \<Rightarrow> foldl bson_max v rest)"

definition aggregate_group_max :: "collection \<Rightarrow> string \<Rightarrow> document list" where
  "aggregate_group_max docs field =
     (if docs = [] then []
      else [[(''_id'', VNull), (''max_'' @ field, dollar_max (field_values docs field))]])"

text \<open>
  \<^verbatim>\<open>x + 1\<close> in Python: defined on integers and on booleans (which are integers there);
  a TypeError on \<^verbatim>\<open>None\<close> and on every other value of a document.
\<close>

fun add_one :: "val \<Rightarrow> py_error + int" where
  "add_one (VInt n) = Inr (n + 1)"
| "add_one (VBool b) = Inr (of_bool b + 1)"
| "add_one v = Inl TypeError"

text \<open>
  \<^verbatim>\<open>max_id = next(result, None)\<close> is the first result or \<^verbatim>\<open>None\<close>; \<^verbatim>\<open>if max_id:\<close>
  holds for a non-empty dict; \<^verbatim>\<open>list(max_id)[1]\<close> is its second key.
\<close>

definition generate_id_from_field :: "collection \<Rightarrow> string \<Rightarrow> py_error + int option" where
  "generate_id_from_field collection field =
     (case aggregate_group_max collection field of
        [] \<Rightarrow> Inr None
      | max_id # others \<Rightarrow>
          if max_id = [] then Inr None
          else if length max_id < 2 then Inl IndexError
          else (case add_one (dict_get max_id (fst (max_id ! 1))) of
                  Inl e \<Rightarrow> Inl e
                | Inr n \<Rightarrow> Inr (Some n)))"

text \<open>
  What the statements about the generator speak of: a field is numeric in a collection when
  every document holds an integer there, or null, or nothing; \<open>int_values\<close> lists the
  integers the documents hold in the field.
\<close>

definition numeric_field :: "collection \<Rightarrow> string \<Rightarrow> bool" where
  "numeric_field docs field =
     list_all (\<lambda>d. case map_of d field of
                      None \<Rightarrow> True
                    | Some VNull \<Rightarrow> True
                    | Some (VInt n) \<Rightarrow> True
                    | Some v \<Rightarrow> False) docs"

definition int_values :: "collection \<Rightarrow> string \<Rightarrow> int list" where
  "int_values docs field =
     concat (map (\<lambda>d. case map_of d field of Some (VInt n) \<Rightarrow> [n] | _ \<Rightarrow> []) docs)"

section \<open>Fixture loading (\<^verbatim>\<open>scripts/script.py\<close>)\<close>

text \<open>
  Both loaders walk over the documents of a list and change each in place; an exception
  in one document ends the call and nothing is returned. The documents of a list are
  distinct objects, as \<^verbatim>\<open>json.load\<close> builds them.
\<close>

fun for_each :: "('a \<Rightarrow> py_error + 'b) \<Rightarrow> 'a list \<Rightarrow> py_error + 'b list" where
  "for_each f [] = Inr []"
| "for_each f (x # xs) =
     (case f x of
        Inl e \<Rightarrow> Inl e
      | Inr y \<Rightarrow> (case for_each f xs of Inl e \<Rightarrow> Inl e | Inr ys \<Rightarrow> Inr (y # ys)))"

subsection \<open>\<^verbatim>\<open>load_json\<close>\<close>

text \<open>
  \<^verbatim>\<open>"$oid" in x\<close> is key membership on a dict, a substring test on a string, element
  membership on a list, and a TypeError on every value that is not a container.
  \<^verbatim>\<open>x["$oid"]\<close> is defined on a dict; a string or a list takes integer indices only.
\<close>

fun starts_with :: "string \<Rightarrow> string \<Rightarrow> bool" where
  "starts_with [] s = True"
| "starts_with (c # cs) [] = False"
| "starts_with (c # cs) (x # xs) = (c = x \<and> starts_with cs xs)"

fun substring :: "string \<Rightarrow> string \<Rightarrow> bool" where
  "substring sub [] = (sub = [])"
| "substring sub (x # xs) = (starts_with sub (x # xs) \<or> substring sub xs)"

fun py_in :: "string \<Rightarrow> val \<Rightarrow> py_error + bool" where
  "py_in k (VDoc d) = Inr (map_of d k \<noteq> None)"
| "py_in k (VStr s) = Inr (substring k s)"
| "py_in k (VList l) = Inr (VStr k \<in> set l)"
| "py_in k v = Inl TypeError"

fun subscript :: "val \<Rightarrow> string \<Rightarrow> py_error + val" where
  "subscript (VDoc d) k = getitem d k"
| "subscript v k = Inl TypeError"

text \<open>
  The file is read and parsed outside the model: \<^verbatim>\<open>load_json\<close> starts from the parsed
  list of documents. The constructor \<^verbatim>\<open>ObjectId\<close> of the driver's library is a
  parameter; it may raise.
\<close>

definition load_document :: "(val \<Rightarrow> py_error + val) \<Rightarrow> document \<Rightarrow> py_error + document" where
  "load_document ObjectId document =
     (case getitem document ''_id'' of
        Inl e \<Rightarrow> Inl e
      | Inr x \<Rightarrow>
          (case py_in ''$oid'' x of
             Inl e \<Rightarrow> Inl e
           | Inr False \<Rightarrow> Inr document
           | Inr True \<Rightarrow>
               (case subscript x ''$oid'' of
                  Inl e \<Rightarrow> Inl e
                | Inr w \<Rightarrow>
                    (case ObjectId w of
                       Inl e \<Rightarrow> Inl e
                     | Inr oid \<Rightarrow> Inr (AList.update ''_id'' oid document)))))"

definition load_json :: "(val \<Rightarrow> py_error + val) \<Rightarrow> document list \<Rightarrow> py_error + document list" where
  "load_json ObjectId json_data = for_each (load_document ObjectId) json_data"

subsection \<open>\<^verbatim>\<open>datetime.strptime\<close> with the format \<^verbatim>\<open>%Y-%m-%dT%H:%M:%SZ\<close>\<close>

text \<open>
  The library turns the format into a regular expression, one group per directive, matched
  from the start of the string with alternatives tried in order and with backtracking, and
  ignoring case:
  \<^verbatim>\<open>%Y\<close> is \<^verbatim>\<open>\d\d\d\d\<close>, \<^verbatim>\<open>%m\<close> is \<^verbatim>\<open>1[0-2]|0[1-9]|[1-9]\<close>,
  \<^verbatim>\<open>%d\<close> is \<^verbatim>\<open>3[0-1]|[1-2]\d|0[1-9]|[1-9]| [1-9]\<close>, \<^verbatim>\<open>%H\<close> is \<^verbatim>\<open>2[0-3]|[0-1]\d|\d\<close>,
  \<^verbatim>\<open>%M\<close> is \<^verbatim>\<open>[0-5]\d|\d\<close>, \<^verbatim>\<open>%S\<close> is \<^verbatim>\<open>6[0-1]|[0-5]\d|\d\<close>.
  A matcher returns the list of its matches in the order the regular expression engine
  tries them, each with the value read and the rest of the string. The first match of the
  whole expression counts; text left after it, a date that does not exist (year 0, 30
  February) and a second above 59 raise ValueError; an argument that is not a string
  raises TypeError. Among 8-bit characters the decimal digits are 0 to 9.
\<close>

type_synonym 'a matcher = "string \<Rightarrow> ('a \<times> string) list"

definition between :: "char \<Rightarrow> char \<Rightarrow> char \<Rightarrow> bool" where
  "between lo hi c = ((of_char lo :: nat) \<le> of_char c \<and> (of_char c :: nat) \<le> of_char hi)"

definition digit :: "char \<Rightarrow> bool" where
  "digit c = between CHR ''0'' CHR ''9'' c"

definition digit_val :: "char \<Rightarrow> nat" where
  "digit_val c = (if digit c then of_char c - 48 else 0)"

definition lit :: "string \<Rightarrow> unit matcher" where
  "lit accepted s = (case s of [] \<Rightarrow> [] | c # rest \<Rightarrow> if c \<in> set accepted then [((), rest)] else [])"

definition two :: "(char \<Rightarrow> bool) \<Rightarrow> (char \<Rightarrow> bool) \<Rightarrow> nat matcher" where
  "two P Q s =
     (case s of
        a # b # rest \<Rightarrow> if P a \<and> Q b then [(10 * digit_val a + digit_val b, rest)] else []
      | _ \<Rightarrow> [])"

definition one :: "(char \<Rightarrow> bool) \<Rightarrow> nat matcher" where
  "one P s = (case s of [] \<Rightarrow> [] | a # rest \<Rightarrow> if P a then [(digit_val a, rest)] else [])"

definition alt :: "'a matcher \<Rightarrow> 'a matcher \<Rightarrow> 'a matcher" where
  "alt p q s = p s @ q s"

definition re_Y :: "nat matcher" where
  "re_Y s =
     (case s of
        a # b # c # d # rest \<Rightarrow>
          if digit a \<and> digit b \<and> digit c \<and> digit d
          then [(1000 * digit_val a + 100 * digit_val b + 10 * digit_val c + digit_val d, rest)]
          else []
      | _ \<Rightarrow> [])"

definition re_m :: "nat matcher" where
  "re_m = alt (two ((=) CHR ''1'') (between CHR ''0'' CHR ''2''))
         (alt (two ((=) CHR ''0'') (between CHR ''1'' CHR ''9''))
              (one (between CHR ''1'' CHR ''9'')))"

definition re_d :: "nat matcher" where
  "re_d = alt (two ((=) CHR ''3'') (between CHR ''0'' CHR ''1''))
         (alt (two (between CHR ''1'' CHR ''2'') digit)
         (alt (two ((=) CHR ''0'') (between CHR ''1'' CHR ''9''))
         (alt (one (between CHR ''1'' CHR ''9''))
              (two ((=) CHR '' '') (between CHR ''1'' CHR ''9'')))))"

definition re_H :: "nat matcher" where
  "re_H = alt (two ((=) CHR ''2'') (between CHR ''0'' CHR ''3''))
         (alt (two (between CHR ''0'' CHR ''1'') digit) (one digit))"

definition re_M :: "nat matcher" where
  "re_M = alt (two (between CHR ''0'' CHR ''5'') digit) (one digit)"

definition re_S :: "nat matcher" where
  "re_S = alt (two ((=) CHR ''6'') (between CHR ''0'' CHR ''1''))
         (alt (two (between CHR ''0'' CHR ''5'') digit) (one digit))"

definition format_regex :: "(nat \<times> nat \<times> nat \<times> nat \<times> nat \<times> nat) matcher" where
  "format_regex s =
     [((Y, m, d, H, M, S), r11).
        (Y, r0) \<leftarrow> re_Y s, (u1, r1) \<leftarrow> lit ''-'' r0,
        (m, r2) \<leftarrow> re_m r1, (u2, r3) \<leftarrow> lit ''-'' r2,
        (d, r4) \<leftarrow> re_d r3, (u3, r5) \<leftarrow> lit ''Tt'' r4,
        (H, r6) \<leftarrow> re_H r5, (u4, r7) \<leftarrow> lit '':'' r6,
        (M, r8) \<leftarrow> re_M r7, (u5, r9) \<leftarrow> lit '':'' r8,
        (S, r10) \<leftarrow> re_S r9, (u6, r11) \<leftarrow> lit ''Zz'' r10]"

definition leap_year :: "nat \<Rightarrow> bool" where
  "leap_year y = (y mod 4 = 0 \<and> (y mod 100 \<noteq> 0 \<or> y mod 400 = 0))"

definition days_in_month :: "nat \<Rightarrow> nat \<Rightarrow> nat" where
  "days_in_month y m =
     (if m = 2 then (if leap_year y then 29 else 28)
      else if m \<in> {4, 6, 9, 11} then 30 else 31)"

definition valid_datetime :: "datetime \<Rightarrow> bool" where
  "valid_datetime t =
     (1 \<le> year t \<and> year t \<le> 9999 \<and> 1 \<le> month t \<and> month t \<le> 12
      \<and> 1 \<le> day t \<and> day t \<le> days_in_month (year t) (month t)
      \<and> hour t \<le> 23 \<and> minute t \<le> 59 \<and> second t \<le> 59)"

definition strptime :: "val \<Rightarrow> py_error + datetime" where
  "strptime data =
     (case data of
        VStr data_string \<Rightarrow>
          (case format_regex data_string of
             [] \<Rightarrow> Inl ValueError
           | ((Y, m, d, H, M, S), rest) # others \<Rightarrow>
               if rest \<noteq> [] then Inl ValueError
               else if valid_datetime
                    \<lparr>year = Y, month = m, day = d, hour = H, minute = M, second = S\<rparr>
               then Inr \<lparr>year = Y, month = m, day = d, hour = H, minute = M, second = S\<rparr>
               else Inl ValueError)
      | _ \<Rightarrow> Inl TypeError)"

text \<open>
  The text of an instant in the format: four digits for the year, two for each of the
  other fields, as the fixture files write their dates. This is what a source string
  denotes; it is not part of the script.
\<close>

definition digit_char :: "nat \<Rightarrow> char" where
  "digit_char n = char_of (48 + n)"

definition pad2 :: "nat \<Rightarrow> string" where
  "pad2 n = [digit_char (n div 10), digit_char (n mod 10)]"

definition pad4 :: "nat \<Rightarrow> string" where
  "pad4 n = [digit_char (n div 1000), digit_char (n div 100 mod 10),
             digit_char (n div 10 mod 10), digit_char (n mod 10)]"

definition instant_text :: "datetime \<Rightarrow> string" where
  "instant_text t =
     pad4 (year t) @ ''-'' @ pad2 (month t) @ ''-'' @ pad2 (day t) @ ''T''
     @ pad2 (hour t) @ '':'' @ pad2 (minute t) @ '':'' @ pad2 (second t) @ ''Z''"

subsection \<open>\<^verbatim>\<open>convert_date\<close>\<close>

definition convert_field :: "string \<Rightarrow> document \<Rightarrow> py_error + document" where
  "convert_field k document =
     (case map_of document k of
        None \<Rightarrow> Inr document
      | Some v \<Rightarrow>
          (case strptime v of
             Inl e \<Rightarrow> Inl e
           | Inr t \<Rightarrow> Inr (AList.update k (VDate t) document)))"

definition convert_document :: "document \<Rightarrow> py_error + document" where
  "convert_document document =
     (case convert_field ''order_date'' document of
        Inl e \<Rightarrow> Inl e
      | Inr document' \<Rightarrow> convert_field ''delivery_date'' document')"

definition convert_date :: "document list \<Rightarrow> py_error + document list" where
  "convert_date json_data = for_each convert_document json_data"

text \<open>
  The lists \<^verbatim>\<open>convert_date\<close> is meant for: every date field that is present holds a
  value \<^verbatim>\<open>strptime\<close> accepts.
\<close>

definition date_fields_parse :: "document list \<Rightarrow> bool" where
  "date_fields_parse docs =
     list_all (\<lambda>d. list_all (\<lambda>k. case map_of d k of
                                    None \<Rightarrow> True
                                  | Some v \<Rightarrow> (case strptime v of Inl e \<Rightarrow> False | Inr t \<Rightarrow> True))
                      [''order_date'', ''delivery_date'']) docs"

section \<open>Order creation: \<^verbatim>\<open>create_order\<close> (\<^verbatim>\<open>scripts/script.py\<close>)\<close>

subsection \<open>The database and its transactions\<close>

text \<open>
  The four collections of \<^verbatim>\<open>ecommerce_db\<close>, as committed on the server. A session with an
  open transaction holds the documents written through it; they are invisible outside the
  transaction until it commits. A write through the session is checked by the server
  (validator, unique indexes) against what the transaction sees: the committed documents
  and its own writes. Committing appends the written documents to the collections,
  aborting drops them. The server's check is a parameter of the model, so that every
  cause of a failing write is covered; \<open>server_accepts\<close> below is the check the
  script sets up. The \<^verbatim>\<open>_id\<close> the driver adds to an inserted document is left out.
\<close>

record database =
  customers :: collection
  products :: collection
  orders :: collection
  order_items :: collection

datatype coll_name = Orders | OrderItems

type_synonym write_check = "coll_name \<Rightarrow> collection \<Rightarrow> document \<Rightarrow> bool"

record session =
  written_orders :: collection
  written_order_items :: collection

definition start_transaction :: session where
  "start_transaction = \<lparr>written_orders = [], written_order_items = []\<rparr>"

fun insert_one ::
  "write_check \<Rightarrow> database \<Rightarrow> coll_name \<Rightarrow> document \<Rightarrow> session \<Rightarrow> py_error + session" where
  "insert_one accepts db Orders document s =
     (if accepts Orders (orders db @ written_orders s) document
      then Inr (s\<lparr>written_orders := written_orders s @ [document]\<rparr>)
      else Inl WriteError)"
| "insert_one accepts db OrderItems document s =
     (if accepts OrderItems (order_items db @ written_order_items s) document
      then Inr (s\<lparr>written_order_items := written_order_items s @ [document]\<rparr>)
      else Inl WriteError)"

definition commit_transaction :: "database \<Rightarrow> session \<Rightarrow> database" where
  "commit_transaction db s =
     db\<lparr>orders := orders db @ written_orders s,
        order_items := order_items db @ written_order_items s\<rparr>"

definition abort_transaction :: "database \<Rightarrow> database" where
  "abort_transaction db = db"

subsection \<open>The validators and unique indexes of the script\<close>

text \<open>
  \<^verbatim>\<open>bsonType: "int"\<close> is the 32-bit integer type: the driver encodes a Python integer in
  that range as one, and a larger one as a 64-bit integer, which the validator rejects.
  A property constrains a field only where the field is present; \<^verbatim>\<open>required\<close> asks for
  presence. A unique index treats a missing field as null.
\<close>

definition has_fields :: "string list \<Rightarrow> document \<Rightarrow> bool" where
  "has_fields required d = list_all (\<lambda>k. map_of d k \<noteq> None) required"

definition property :: "string \<Rightarrow> (val \<Rightarrow> bool) \<Rightarrow> document \<Rightarrow> bool" where
  "property k P d = (case map_of d k of None \<Rightarrow> True | Some v \<Rightarrow> P v)"

fun bson_int :: "val \<Rightarrow> bool" where
  "bson_int (VInt n) = (- 2147483648 \<le> n \<and> n \<le> 2147483647)"
| "bson_int v = False"

fun bson_int_min :: "int \<Rightarrow> val \<Rightarrow> bool" where
  "bson_int_min lo (VInt n) = (- 2147483648 \<le> n \<and> n \<le> 2147483647 \<and> lo \<le> n)"
| "bson_int_min lo v = False"

fun bson_date :: "val \<Rightarrow> bool" where
  "bson_date (VDate t) = True"
| "bson_date v = False"

fun bson_enum :: "string list \<Rightarrow> val \<Rightarrow> bool" where
  "bson_enum allowed (VStr s) = (s \<in> set allowed)"
| "bson_enum allowed v = False"

definition orders_validator :: "document \<Rightarrow> bool" where
  "orders_validator d =
     (has_fields [''order_id'', ''customer_id'', ''order_date'', ''status''] d
      \<and> property ''order_id'' bson_int d
      \<and> property ''customer_id'' bson_int d
      \<and> property ''order_date'' bson_date d
      \<and> property ''status''
           (bson_enum [''Shipped'', ''Processing'', ''Cancelled'', ''Delivered'']) d)"

definition order_items_validator :: "document \<Rightarrow> bool" where
  "order_items_validator d =
     (has_fields [''order_item_id'', ''order_id'', ''product_id'', ''quantity'', ''price''] d
      \<and> property ''order_item_id'' bson_int d
      \<and> property ''order_id'' bson_int d
      \<and> property ''product_id'' bson_int d
      \<and> property ''quantity'' (bson_int_min 1) d
      \<and> property ''price'' (bson_int_min 0) d)"

definition unique_index :: "string \<Rightarrow> collection \<Rightarrow> document \<Rightarrow> bool" where
  "unique_index k existing d = list_all (\<lambda>e. dict_get e k \<noteq> dict_get d k) existing"

fun server_accepts :: write_check where
  "server_accepts Orders existing d = (orders_validator d \<and> unique_index ''order_id'' existing d)"
| "server_accepts OrderItems existing d = order_items_validator d"

subsection \<open>\<^verbatim>\<open>create_order\<close>\<close>

text \<open>
  \<^verbatim>\<open>generate_id_from_field\<close> calls \<^verbatim>\<open>collection.aggregate(pipeline)\<close> without the session,
  so it reads outside the transaction: it sees the committed collection, not the
  documents the transaction has written so far.
\<close>

definition id_val :: "int option \<Rightarrow> val" where
  "id_val i = (case i of None \<Rightarrow> VNull | Some n \<Rightarrow> VInt n)"

fun insert_order_items ::
  "write_check \<Rightarrow> database \<Rightarrow> int option \<Rightarrow> document list \<Rightarrow> session \<Rightarrow> py_error + session" where
  "insert_order_items accepts db order_id [] s = Inr s"
| "insert_order_items accepts db order_id (product # product_orders) s =
     (case getitem product ''product_id'' of
        Inl e \<Rightarrow> Inl e
      | Inr product_id \<Rightarrow>
     (case getitem product ''quantity'' of
        Inl e \<Rightarrow> Inl e
      | Inr quantity \<Rightarrow>
     (case generate_id_from_field (order_items db) ''order_item_id'' of
        Inl e \<Rightarrow> Inl e
      | Inr order_item_id \<Rightarrow>
     (case getitem product ''price'' of
        Inl e \<Rightarrow> Inl e
      | Inr price \<Rightarrow>
     (case insert_one accepts db OrderItems
             [(''order_item_id'', id_val order_item_id),
              (''order_id'', id_val order_id),
              (''product_id'', product_id),
              (''quantity'', quantity),
              (''price'', price)] s of
        Inl e \<Rightarrow> Inl e
      | Inr s' \<Rightarrow> insert_order_items accepts db order_id product_orders s')))))"

text \<open>The body of the \<^verbatim>\<open>try\<close> block, up to the commit.\<close>

definition order_writes ::
  "write_check \<Rightarrow> database \<Rightarrow> int \<Rightarrow> document list \<Rightarrow> session
     \<Rightarrow> py_error + (int option \<times> session)" where
  "order_writes accepts db customer_id product_orders s =
     (case generate_id_from_field (orders db) ''order_id'' of
        Inl e \<Rightarrow> Inl e
      | Inr order_id \<Rightarrow>
     (case strptime (VStr ''2024-12-22T10:00:00Z'') of
        Inl e \<Rightarrow> Inl e
      | Inr order_date \<Rightarrow>
     (case insert_one accepts db Orders
             [(''order_id'', id_val order_id),
              (''customer_id'', VInt customer_id),
              (''order_date'', VDate order_date),
              (''status'', VStr ''Processing'')] s of
        Inl e \<Rightarrow> Inl e
      | Inr s' \<Rightarrow>
     (case insert_order_items accepts db order_id product_orders s' of
        Inl e \<Rightarrow> Inl e
      | Inr s'' \<Rightarrow> Inr (order_id, s'')))))"

text \<open>
  What the call prints: \<^verbatim>\<open>Order {order_id} created successfully.\<close> or
  \<^verbatim>\<open>Oops, an error occurred: {e}\<close>.
\<close>

datatype printed = OrderCreated "int option" | ErrorOccurred py_error

definition create_order ::
  "write_check \<Rightarrow> database \<Rightarrow> int \<Rightarrow> document list \<Rightarrow> database \<times> printed" where
  "create_order accepts db customer_id product_orders =
     (case order_writes accepts db customer_id product_orders start_transaction of
        Inr (order_id, s) \<Rightarrow> (commit_transaction db s, OrderCreated order_id)
      | Inl e \<Rightarrow> (abort_transaction db, ErrorOccurred e))"

text \<open>
  The documents a call writes, in the words of the script: the \<^verbatim>\<open>order\<close> dict and, for
  each line item, the \<^verbatim>\<open>order_item\<close> dict. A line item as the docstring describes it has
  the keys \<^verbatim>\<open>product_id\<close>, \<^verbatim>\<open>quantity\<close> and \<^verbatim>\<open>price\<close>.
\<close>

definition order_document :: "int option \<Rightarrow> int \<Rightarrow> document" where
  "order_document order_id customer_id =
     [(''order_id'', id_val order_id),
      (''customer_id'', VInt customer_id),
      (''order_date'',
         VDate \<lparr>year = 2024, month = 12, day = 22, hour = 10, minute = 0, second = 0\<rparr>),
      (''status'', VStr ''Processing'')]"

definition order_item_document :: "int option \<Rightarrow> int option \<Rightarrow> document \<Rightarrow> document" where
  "order_item_document order_item_id order_id product =
     [(''order_item_id'', id_val order_item_id),
      (''order_id'', id_val order_id),
      (''product_id'', dict_get product ''product_id''),
      (''quantity'', dict_get product ''quantity''),
      (''price'', dict_get product ''price'')]"

definition order_item_documents ::
  "int option \<Rightarrow> int option \<Rightarrow> document list \<Rightarrow> document list" where
  "order_item_documents order_item_id order_id product_orders =
     map (order_item_document order_item_id order_id) product_orders"

definition line_item :: "document \<Rightarrow> bool" where
  "line_item product = has_fields [''product_id'', ''quantity'', ''price''] product"

text \<open>A small database, used as an example.\<close>

definition example_db :: database where
  "example_db =
     \<lparr>customers = [], products = [],
      orders =
        [[(''order_id'', VInt 5001), (''customer_id'', VInt 1),
          (''order_date'',
             VDate \<lparr>year = 2024, month = 1, day = 15, hour = 10, minute = 0, second = 0\<rparr>),
          (''status'', VStr ''Delivered'')]],
      order_items =
        [[(''order_item_id'', VInt 9001), (''order_id'', VInt 5001),
          (''product_id'', VInt 101), (''quantity'', VInt 2), (''price'', VInt 1200)]]\<rparr>"

section \<open>Revenue by category: the aggregation \<^verbatim>\<open>pipeline\<close> (\<^verbatim>\<open>scripts/script.py\<close>)\<close>

subsection \<open>The stages, as the server runs them\<close>

text \<open>
  \<^verbatim>\<open>$lookup\<close> adds to each document the array of the foreign documents whose foreign field
  equals the document's local field (a missing field counts as null).
  \<^verbatim>\<open>$unwind\<close> replaces a document by one copy for each element of the array, and drops a
  document whose array is empty, null or missing.
  A field path such as \<^verbatim>\<open>$product_info.price\<close> descends into embedded documents.
  \<^verbatim>\<open>$multiply\<close> is null as soon as an operand is null or missing and fails on any other
  operand that is not a number.
  \<^verbatim>\<open>$group\<close> makes one document for each distinct key, \<^verbatim>\<open>$sum\<close> adding the numeric values
  and skipping the others; the server fixes no order of the groups.
  The integers of a stored document have 64 bits at most, and the server computes with
  them: a product or a total that does not fit a signed 64-bit integer is returned as a
  floating-point number. Such an answer is outside the model, which stops there with
  \<open>FloatingPoint\<close> instead of giving rows.
  \<^verbatim>\<open>$project\<close> keeps \<^verbatim>\<open>total_revenue\<close>, renames \<^verbatim>\<open>_id\<close> to \<^verbatim>\<open>product_category\<close>.
  \<^verbatim>\<open>$sort\<close> with \<^verbatim>\<open>-1\<close> orders by descending value in the server's comparison order.
  Values are scalars or embedded documents where the paths look; numbers are integers.
\<close>

definition lookup ::
  "collection \<Rightarrow> string \<Rightarrow> string \<Rightarrow> string \<Rightarrow> collection \<Rightarrow> collection" where
  "lookup foreign localField foreignField as_field docs =
     map (\<lambda>d. AList.update as_field
                 (VList (map VDoc
                    (filter (\<lambda>f. dict_get f foreignField = dict_get d localField) foreign))) d)
       docs"

definition unwind :: "string \<Rightarrow> collection \<Rightarrow> collection" where
  "unwind path docs =
     concat (map (\<lambda>d. case map_of d path of
                          None \<Rightarrow> []
                        | Some VNull \<Rightarrow> []
                        | Some (VList xs) \<Rightarrow> map (\<lambda>x. AList.update path x d) xs
                        | Some v \<Rightarrow> [d]) docs)"

fun get_path :: "document \<Rightarrow> string list \<Rightarrow> val option" where
  "get_path d [] = None"
| "get_path d [k] = map_of d k"
| "get_path d (k # ks) = (case map_of d k of Some (VDoc e) \<Rightarrow> get_path e ks | _ \<Rightarrow> None)"

datatype pipeline_stop = Raised py_error | FloatingPoint

definition int64 :: "int \<Rightarrow> bool" where
  "int64 n = (- 9223372036854775808 \<le> n \<and> n \<le> 9223372036854775807)"

fun multiply :: "val option \<Rightarrow> val option \<Rightarrow> pipeline_stop + val" where
  "multiply None b = Inr VNull"
| "multiply (Some VNull) b = Inr VNull"
| "multiply (Some (VInt m)) None = Inr VNull"
| "multiply (Some (VInt m)) (Some VNull) = Inr VNull"
| "multiply (Some (VInt m)) (Some (VInt n)) =
     (if int64 (m * n) then Inr (VInt (m * n)) else Inl FloatingPoint)"
| "multiply a b = Inl (Raised OperationFailure)"

fun add_fields ::
  "string \<Rightarrow> (document \<Rightarrow> pipeline_stop + val) \<Rightarrow> collection
     \<Rightarrow> pipeline_stop + collection" where
  "add_fields k expr [] = Inr []"
| "add_fields k expr (d # docs) =
     (case expr d of
        Inl e \<Rightarrow> Inl e
      | Inr v \<Rightarrow>
          (case add_fields k expr docs of
             Inl e \<Rightarrow> Inl e
           | Inr rows \<Rightarrow> Inr (AList.update k v d # rows)))"

definition path_value :: "document \<Rightarrow> string list \<Rightarrow> val" where
  "path_value d path = (case get_path d path of None \<Rightarrow> VNull | Some v \<Rightarrow> v)"

fun summand :: "val \<Rightarrow> int" where
  "summand (VInt n) = n"
| "summand v = 0"

definition group_total :: "string list \<Rightarrow> string list \<Rightarrow> collection \<Rightarrow> val \<Rightarrow> int" where
  "group_total key path docs k =
     sum_list (map (\<lambda>d. summand (path_value d path))
                 (filter (\<lambda>d. path_value d key = k) docs))"

definition group_sum ::
  "string list \<Rightarrow> string \<Rightarrow> string list \<Rightarrow> collection \<Rightarrow> pipeline_stop + collection" where
  "group_sum key out path docs =
     (if list_all (\<lambda>k. int64 (group_total key path docs k))
           (remdups (map (\<lambda>d. path_value d key) docs))
      then Inr (map (\<lambda>k. [(''_id'', k), (out, VInt (group_total key path docs k))])
                  (remdups (map (\<lambda>d. path_value d key) docs)))
      else Inl FloatingPoint)"

definition project :: "document \<Rightarrow> document" where
  "project d =
     (case map_of d ''total_revenue'' of None \<Rightarrow> [] | Some v \<Rightarrow> [(''total_revenue'', v)])
     @ (case map_of d ''_id'' of None \<Rightarrow> [] | Some v \<Rightarrow> [(''product_category'', v)])"

fun insert_desc :: "string \<Rightarrow> document \<Rightarrow> collection \<Rightarrow> collection" where
  "insert_desc k d [] = [d]"
| "insert_desc k d (e # es) =
     (if bson_cmp (dict_get e k) (dict_get d k) = GT then e # insert_desc k d es
      else d # e # es)"

definition sort_desc :: "string \<Rightarrow> collection \<Rightarrow> collection" where
  "sort_desc k docs = foldr (insert_desc k) docs []"

text \<open>\<^verbatim>\<open>order_items.aggregate(pipeline)\<close>: the six stages in their order.\<close>

definition pipeline :: "collection \<Rightarrow> collection \<Rightarrow> pipeline_stop + collection" where
  "pipeline items prods =
     (case add_fields ''revenue''
             (\<lambda>d. multiply (get_path d [''quantity'']) (get_path d [''product_info'', ''price'']))
             (unwind ''product_info''
                (lookup prods ''product_id'' ''product_id'' ''product_info'' items)) of
        Inl e \<Rightarrow> Inl e
      | Inr rows \<Rightarrow>
          (case group_sum [''product_info'', ''category''] ''total_revenue'' [''revenue'']
                  rows of
             Inl e \<Rightarrow> Inl e
           | Inr groups \<Rightarrow> Inr (sort_desc ''total_revenue'' (map project groups))))"

subsection \<open>The reference computation\<close>

text \<open>
  The revenue of a category, computed by hand: the sum, over the order items whose
  product belongs to the category, of the item's quantity times the product's price. The
  product of an order item is the product with the item's \<^verbatim>\<open>product_id\<close>. The categories
  are those of the products that order items refer to.
\<close>

definition product_of :: "collection \<Rightarrow> document \<Rightarrow> document option" where
  "product_of prods item =
     find (\<lambda>p. dict_get p ''product_id'' = dict_get item ''product_id'') prods"

definition reference_revenue :: "collection \<Rightarrow> collection \<Rightarrow> val \<Rightarrow> int" where
  "reference_revenue items prods c =
     sum_list (map (\<lambda>item. case product_of prods item of
                             None \<Rightarrow> 0
                           | Some p \<Rightarrow>
                               if dict_get p ''category'' = c
                               then summand (dict_get item ''quantity'') * summand (dict_get p ''price'')
                               else 0) items)"

definition reference_categories :: "collection \<Rightarrow> collection \<Rightarrow> val list" where
  "reference_categories items prods =
     remdups (concat (map (\<lambda>item. case product_of prods item of
                                    None \<Rightarrow> []
                                  | Some p \<Rightarrow> [dict_get p ''category'']) items))"

definition reference_rows :: "collection \<Rightarrow> collection \<Rightarrow> collection" where
  "reference_rows items prods =
     map (\<lambda>c. [(''total_revenue'', VInt (reference_revenue items prods c)),
               (''product_category'', c)])
       (reference_categories items prods)"

text \<open>
  The shape the comparison presupposes: order items with an integer product id and quantity,
  products with an integer product id and price and a string as category, the integers
  being stored ones (64 bits at most), and no two products with the same product id. The
  validators of the two collections ask for more. The revenues fit when the revenue of
  every order item and the total of every category is a signed 64-bit integer.
\<close>

fun is_int :: "val \<Rightarrow> bool" where
  "is_int (VInt n) = True"
| "is_int v = False"

fun stored_int :: "val \<Rightarrow> bool" where
  "stored_int (VInt n) = int64 n"
| "stored_int v = False"

fun is_str :: "val \<Rightarrow> bool" where
  "is_str (VStr s) = True"
| "is_str v = False"

definition order_item_shaped :: "document \<Rightarrow> bool" where
  "order_item_shaped d =
     (stored_int (dict_get d ''product_id'') \<and> stored_int (dict_get d ''quantity''))"

definition product_shaped :: "document \<Rightarrow> bool" where
  "product_shaped p =
     (stored_int (dict_get p ''product_id'') \<and> is_str (dict_get p ''category'')
      \<and> stored_int (dict_get p ''price''))"

definition revenues_fit :: "collection \<Rightarrow> collection \<Rightarrow> bool" where
  "revenues_fit items prods =
     (list_all (\<lambda>item. case product_of prods item of
                           None \<Rightarrow> True
                         | Some p \<Rightarrow>
                             int64 (summand (dict_get item ''quantity'')
                                    * summand (dict_get p ''price''))) items
      \<and> list_all (\<lambda>c. int64 (reference_revenue items prods c))
            (reference_categories items prods))"

definition revenue_desc :: "collection \<Rightarrow> bool" where
  "revenue_desc rows =
     sorted_wrt (\<lambda>a b. summand (dict_get a ''total_revenue'') \<ge> summand (dict_get b ''total_revenue''))
       rows"

subsection \<open>Intermediate results of the pipeline\<close>

text \<open>
  The products a \<^verbatim>\<open>$lookup\<close> finds for an order item, the row of an order item and one
  of its products after \<^verbatim>\<open>$addFields\<close>, and the rows of all order items when each has
  at most one product.
\<close>

definition matches :: "collection \<Rightarrow> document \<Rightarrow> document list" where
  "matches prods item =
     filter (\<lambda>f. dict_get f ''product_id'' = dict_get item ''product_id'') prods"

definition joined_row :: "document \<Rightarrow> document \<Rightarrow> document" where
  "joined_row item p =
     AList.update ''revenue''
       (VInt (summand (dict_get item ''quantity'') * summand (dict_get p ''price'')))
       (AList.update ''product_info'' (VDoc p) item)"

definition joined_pairs :: "collection \<Rightarrow> collection \<Rightarrow> (document \<times> document) list" where
  "joined_pairs items prods =
     concat (map (\<lambda>item. case product_of prods item of
                            None \<Rightarrow> []
                          | Some p \<Rightarrow> [(item, p)]) items)"

definition joined :: "collection \<Rightarrow> collection \<Rightarrow> collection" where
  "joined items prods =
     concat (map (\<lambda>item. case product_of prods item of
                            None \<Rightarrow> []
                          | Some p \<Rightarrow> [joined_row item p]) items)"

text \<open>Three products and four order items, one of them for an unknown product.\<close>

definition ex_products :: collection where
  "ex_products =
     [[(''product_id'', VInt 101), (''product_name'', VStr ''Laptop''),
       (''category'', VStr ''Electronics''), (''price'', VInt 1200)],
      [(''product_id'', VInt 102), (''product_name'', VStr ''Desk''),
       (''category'', VStr ''Furniture''), (''price'', VInt 300)],
      [(''product_id'', VInt 103), (''product_name'', VStr ''Phone''),
       (''category'', VStr ''Electronics''), (''price'', VInt 800)]]"

definition ex_items :: collection where
  "ex_items =
     [[(''order_item_id'', VInt 9001), (''order_id'', VInt 5001), (''product_id'', VInt 102),
       (''quantity'', VInt 2), (''price'', VInt 300)],
      [(''order_item_id'', VInt 9002), (''order_id'', VInt 5001), (''product_id'', VInt 101),
       (''quantity'', VInt 1), (''price'', VInt 1200)],
      [(''order_item_id'', VInt 9003), (''order_id'', VInt 5002), (''product_id'', VInt 103),
       (''quantity'', VInt 3), (''price'', VInt 800)],
      [(''order_item_id'', VInt 9004), (''order_id'', VInt 5002), (''product_id'', VInt 999),
       (''quantity'', VInt 5), (''price'', VInt 1)]]"

text \<open>
  One product and three order items that the validators accept, with the greatest price
  and quantity a 32-bit integer holds.
\<close>

definition big_products :: collection where
  "big_products =
     [[(''product_id'', VInt 101), (''product_name'', VStr ''Laptop''),
       (''category'', VStr ''Electronics''), (''price'', VInt 2147483647)]]"

definition big_items :: collection where
  "big_items =
     [[(''order_item_id'', VInt 9001), (''order_id'', VInt 5001), (''product_id'', VInt 101),
       (''quantity'', VInt 2147483647), (''price'', VInt 2147483647)],
      [(''order_item_id'', VInt 9002), (''order_id'', VInt 5001), (''product_id'', VInt 101),
       (''quantity'', VInt 2147483647), (''price'', VInt 2147483647)],
      [(''order_item_id'', VInt 9003), (''order_id'', VInt 5002), (''product_id'', VInt 101),
       (''quantity'', VInt 2147483647), (''price'', VInt 2147483647)]]"

section \<open>Plot helper: \<^verbatim>\<open>notebook/utils/handle_plot.py\<close>\<close>

subsection \<open>Configuration constants (\<^verbatim>\<open>utils/config.py\<close>)\<close>

text \<open>
  \<^verbatim>\<open>BASE_DIR = '../'\<close>, \<^verbatim>\<open>PLOTS = os.path.join(BASE_DIR, 'screenshots/')\<close>,
  \<^verbatim>\<open>format = 'webp'\<close>, \<^verbatim>\<open>INTERACTIVE = False\<close>. The first component of the join
  already ends in a separator, so the join is plain concatenation.
\<close>

definition BASE_DIR :: string where
  "BASE_DIR = ''../''"

definition PLOTS :: string where
  "PLOTS = BASE_DIR @ ''screenshots/''"

definition format :: string where
  "format = ''webp''"

definition INTERACTIVE :: bool where
  "INTERACTIVE = False"

subsection \<open>\<^verbatim>\<open>title_to_filename\<close>\<close>

text \<open>
  \<^verbatim>\<open>str.maketrans(replace_dict)\<close> builds a table from characters to replacement strings and
  \<^verbatim>\<open>str.translate\<close> maps every character of the title through the table, keeping the
  characters the table does not mention.
\<close>

definition replace_dict :: "(char \<times> string) list" where
  "replace_dict =
     [(CHR '','', ''_''), (CHR ''!'', ''_''), (CHR ''?'', ''_''), (CHR '' '', ''_''),
      (CHR '':'', ''_'')]"

definition translate :: "(char \<times> string) list \<Rightarrow> string \<Rightarrow> string" where
  "translate table s =
     concat (map (\<lambda>c. case map_of table c of None \<Rightarrow> [c] | Some r \<Rightarrow> r) s)"

definition title_to_filename :: "string \<Rightarrow> string \<Rightarrow> string" where
  "title_to_filename title save_dir =
     save_dir @ translate replace_dict title @ ''.'' @ format"

subsection \<open>\<^verbatim>\<open>show_plot\<close>\<close>

text \<open>
  A figure is known to \<^verbatim>\<open>show_plot\<close> through \<^verbatim>\<open>fig.layout.title.text\<close> only, which is
  absent for a figure without a title. What the function does to the outside world is
  recorded as a trace of effects, together with the set of image files on disk:
  \<^verbatim>\<open>fig.write_image\<close> creates a file and \<^verbatim>\<open>webp.load_image\<close> needs the file to exist.
  A missing title makes \<^verbatim>\<open>title.translate\<close> raise AttributeError.
  The paths on disk are those of the files and of the directories (a directory with its
  final slash). Writing a file needs its directory to exist, and raises FileNotFoundError
  otherwise; a name without a slash is in the current directory. Other failures of the
  rendering engine or of the disk are not modelled.
\<close>

record figure =
  title_text :: "string option"

datatype effect =
    Print string
  | FigShow figure
  | WriteImage figure string
  | LoadImage string
  | Display string

record plot_result =
  files :: "string set"
  trace :: "effect list"
  returned :: "string option"

definition dirname :: "string \<Rightarrow> string" where
  "dirname path = rev (dropWhile (\<lambda>c. c \<noteq> CHR ''/'') (rev path))"

definition write_image :: "string set \<Rightarrow> string \<Rightarrow> py_error + string set" where
  "write_image fs filename =
     (if dirname filename = [] \<or> dirname filename \<in> fs then Inr (insert filename fs)
      else Inl FileNotFoundError)"

definition figure_filename :: "figure \<Rightarrow> string \<Rightarrow> py_error + string" where
  "figure_filename fig save_dir =
     (case title_text fig of
        None \<Rightarrow> Inl AttributeError
      | Some t \<Rightarrow> Inr (title_to_filename t save_dir))"

definition show_plot ::
  "string set \<Rightarrow> figure option \<Rightarrow> bool \<Rightarrow> bool \<Rightarrow> string \<Rightarrow> bool \<Rightarrow> py_error + plot_result" where
  "show_plot fs fig save_only display_only save_dir interactive =
     (case fig of
        None \<Rightarrow>
          Inr \<lparr>files = fs, trace = [Print ''Pass in a plotly figure as argument''],
               returned = None\<rparr>
      | Some f \<Rightarrow>
          if interactive then
            Inr \<lparr>files = fs, trace = [FigShow f], returned = None\<rparr>
          else if save_only then
            (case figure_filename f save_dir of
               Inl e \<Rightarrow> Inl e
             | Inr filename \<Rightarrow>
                 (case write_image fs filename of
                    Inl e \<Rightarrow> Inl e
                  | Inr fs' \<Rightarrow>
                      Inr \<lparr>files = fs', trace = [WriteImage f filename],
                           returned = Some filename\<rparr>))
          else if display_only then
            (case figure_filename f save_dir of
               Inl e \<Rightarrow> Inl e
             | Inr filename \<Rightarrow>
                 if filename \<in> fs then
                   Inr \<lparr>files = fs, trace = [LoadImage filename, Display filename],
                        returned = None\<rparr>
                 else Inl FileNotFoundError)
          else
            (case figure_filename f save_dir of
               Inl e \<Rightarrow> Inl e
             | Inr filename \<Rightarrow>
                 (case write_image fs filename of
                    Inl e \<Rightarrow> Inl e
                  | Inr fs' \<Rightarrow>
                      Inr \<lparr>files = fs',
                           trace = [WriteImage f filename, LoadImage filename,
                                    Display filename],
                           returned = None\<rparr>)))"

text \<open>Whether a trace writes an image file.\<close>

fun writes_image :: "effect \<Rightarrow> bool" where
  "writes_image (WriteImage f n) = True"
| "writes_image e = False"

section \<open>The ID generator\<close>

lemma bson_max_VInt: "bson_max (VInt a) (VInt b) = VInt (max a b)"
  by (simp add: bson_max_def cmp_int_def)

lemma foldl_bson_max_VInt:
  "foldl bson_max (VInt m) (map VInt ns) = VInt (Max (set (m # ns)))"
proof (induction ns arbitrary: m)
  case Nil
  then show ?case by simp
next
  case (Cons n ns)
  have "Max (insert (max m n) (set ns)) = Max (insert m (insert n (set ns)))"
    by (metis List.finite_set Max_insert Max_singleton finite_insert insert_not_empty max.assoc)
  with Cons show ?case by (simp add: bson_max_VInt)
qed

lemma dollar_max_VInt:
  "ns \<noteq> [] \<Longrightarrow> dollar_max (map VInt ns) = VInt (Max (set ns))"
  by (cases ns) (simp_all add: dollar_max_def foldl_bson_max_VInt del: foldl_Cons set_simps)

lemma field_values_numeric:
  "numeric_field docs field \<Longrightarrow> field_values docs field = map VInt (int_values docs field)"
  by (induction docs)
     (auto simp: numeric_field_def field_values_def int_values_def split: option.splits val.splits)

lemma field_values_absent:
  "\<forall>d\<in>set docs. map_of d field = None \<or> map_of d field = Some VNull \<Longrightarrow>
   field_values docs field = []"
  by (induction docs) (auto simp: field_values_def)

lemma generate_id_nonempty:
  "docs \<noteq> [] \<Longrightarrow>
   generate_id_from_field docs field =
     (case add_one (dollar_max (field_values docs field)) of
        Inl e \<Rightarrow> Inl e | Inr n \<Rightarrow> Inr (Some n))"
  by (simp add: generate_id_from_field_def aggregate_group_max_def dict_get_def)

lemma generate_id_empty: "generate_id_from_field [] field = Inr None"
  by (simp add: generate_id_from_field_def aggregate_group_max_def)

text \<open>
  Claim C1, as the code has it. On the empty collection the generator returns
  \<^verbatim>\<open>None\<close>. On a collection where the field is numeric and at least one document holds
  an integer in it, the generator returns one more than the greatest of these integers.
\<close>

theorem generate_id_from_field_max_plus_one:
  "generate_id_from_field [] field = Inr None
   \<and> (numeric_field docs field \<longrightarrow> int_values docs field \<noteq> [] \<longrightarrow>
        generate_id_from_field docs field = Inr (Some (Max (set (int_values docs field)) + 1)))"
proof (intro conjI impI)
  show "generate_id_from_field [] field = Inr None"
    by (rule generate_id_empty)
next
  assume num: "numeric_field docs field" and some: "int_values docs field \<noteq> []"
  from some have "docs \<noteq> []" by (auto simp: int_values_def)
  then show "generate_id_from_field docs field
               = Inr (Some (Max (set (int_values docs field)) + 1))"
    using num some by (simp add: generate_id_nonempty field_values_numeric dollar_max_VInt)
qed

theorem generate_id_from_field_max_plus_one_witness:
  "numeric_field [[(''order_id'', VInt 5001)], [(''order_id'', VInt 5003)], [(''note'', VStr ''x'')]]
     ''order_id''
   \<and> int_values [[(''order_id'', VInt 5001)], [(''order_id'', VInt 5003)], [(''note'', VStr ''x'')]]
       ''order_id'' \<noteq> []
   \<and> generate_id_from_field
       [[(''order_id'', VInt 5001)], [(''order_id'', VInt 5003)], [(''note'', VStr ''x'')]]
       ''order_id'' = Inr (Some 5004)"
  using generate_id_from_field_max_plus_one
    [of "''order_id''"
        "[[(''order_id'', VInt 5001)], [(''order_id'', VInt 5003)], [(''note'', VStr ''x'')]]"]
  by (simp add: numeric_field_def int_values_def)

text \<open>
  The claim as the specification states it promises the maximum plus one for every
  non-empty collection. A non-empty collection none of whose documents has the field
  refutes it: the generator returns nothing, it raises.
\<close>

theorem generate_id_from_field_nonempty_counterexample:
  "[[(''customer_id'', VInt 1), (''name'', VStr ''Alice'')]] \<noteq> []
   \<and> generate_id_from_field [[(''customer_id'', VInt 1), (''name'', VStr ''Alice'')]] ''order_id''
       = Inl TypeError"
  by (simp add: generate_id_from_field_def aggregate_group_max_def dict_get_def
        field_values_def dollar_max_def)

text \<open>
  Claim C9. On a non-empty collection in which every document lacks the field or holds
  null in it, the generator raises TypeError (the server's maximum is null, and
  \<^verbatim>\<open>None + 1\<close> is a type error): the \<^verbatim>\<open>None\<close> result is for the empty collection only.
\<close>

theorem generate_id_from_field_missing_field_raises:
  assumes "docs \<noteq> []"
    and "\<forall>d\<in>set docs. map_of d field = None \<or> map_of d field = Some VNull"
  shows "generate_id_from_field docs field = Inl TypeError"
  using assms by (simp add: generate_id_nonempty field_values_absent dollar_max_def)

theorem generate_id_from_field_missing_field_raises_witness:
  "[[(''customer_id'', VInt 1)], [(''order_id'', VNull)]] \<noteq> []
   \<and> map_of [(''customer_id'', VInt 1)] ''order_id'' = None
   \<and> map_of [(''order_id'', VNull)] ''order_id'' = Some VNull
   \<and> generate_id_from_field [[(''customer_id'', VInt 1)], [(''order_id'', VNull)]] ''order_id''
       = Inl TypeError"
  using generate_id_from_field_missing_field_raises
    [of "[[(''customer_id'', VInt 1)], [(''order_id'', VNull)]]" "''order_id''"]
  by simp

section \<open>Fixture loading\<close>

lemma for_each_Inr:
  "for_each f xs = Inr ys \<Longrightarrow>
   length ys = length xs \<and> (\<forall>i<length xs. f (xs ! i) = Inr (ys ! i))"
proof (induction xs arbitrary: ys)
  case Nil
  then show ?case by simp
next
  case (Cons x xs)
  from Cons.prems obtain y ys' where fx: "f x = Inr y" and rest: "for_each f xs = Inr ys'"
    and ys: "ys = y # ys'"
    by (auto split: sum.splits)
  from Cons.IH [OF rest] have len: "length ys' = length xs"
    and each: "\<forall>i<length xs. f (xs ! i) = Inr (ys' ! i)" by simp_all
  show ?case
  proof (intro conjI allI impI)
    show "length ys = length (x # xs)" using len ys by simp
  next
    fix i assume "i < length (x # xs)"
    then show "f ((x # xs) ! i) = Inr (ys ! i)"
      using fx each ys by (cases i) simp_all
  qed
qed

lemma for_each_total:
  "\<forall>x\<in>set xs. \<exists>y. f x = Inr y \<Longrightarrow> \<exists>ys. for_each f xs = Inr ys"
  by (induction xs) (auto split: sum.splits)

lemma for_each_Inl:
  "f x = Inl e \<Longrightarrow> for_each f (x # xs) = Inl e"
  by simp

lemma of_char_digit_char: "n < 10 \<Longrightarrow> of_char (digit_char n) = 48 + n"
  by (simp add: digit_char_def)

lemma digit_digit_char: "n < 10 \<Longrightarrow> digit (digit_char n)"
  by (simp add: digit_def between_def of_char_digit_char)

lemma digit_val_digit_char: "n < 10 \<Longrightarrow> digit_val (digit_char n) = n"
  by (simp add: digit_val_def digit_digit_char of_char_digit_char)

lemma between_digit_char:
  "n < 10 \<Longrightarrow> between lo hi (digit_char n) = (of_char lo \<le> 48 + n \<and> 48 + n \<le> of_char hi)"
  by (simp add: between_def of_char_digit_char)

lemma eq_digit_char:
  "n < 10 \<Longrightarrow> (c = digit_char n) = (of_char c = 48 + n)"
  using of_char_eq_iff [of c "digit_char n", where ?'a = nat]
  by (simp add: of_char_digit_char)

lemma lit_digit_char:
  "n < 10 \<Longrightarrow> \<forall>c\<in>set accepted. (of_char c :: nat) < 48 \<or> 57 < (of_char c :: nat) \<Longrightarrow>
   lit accepted (digit_char n # r) = []"
  by (cases "digit_char n \<in> set accepted") (auto simp: lit_def of_char_digit_char)

lemma two_pad2:
  "n < 100 \<Longrightarrow>
   two P Q (pad2 n @ s)
     = (if P (digit_char (n div 10)) \<and> Q (digit_char (n mod 10)) then [(n, s)] else [])"
  by (simp add: two_def pad2_def digit_val_digit_char)

lemma one_pad2:
  "n < 100 \<Longrightarrow>
   one P (pad2 n @ s)
     = (if P (digit_char (n div 10)) then [(n div 10, digit_char (n mod 10) # s)] else [])"
  by (simp add: one_def pad2_def digit_val_digit_char)

lemma four_digits:
  "1000 * (n div 1000) + 100 * (n div 100 mod 10) + 10 * (n div 10 mod 10) + n mod 10 = (n::nat)"
proof -
  define a where "a = n div 10"
  define b where "b = a div 10"
  define c where "c = b div 10"
  have b: "n div 100 = b" and c: "n div 1000 = c"
    unfolding a_def b_def c_def by (simp_all add: div_mult2_eq)
  have "n = 10 * a + n mod 10" "a = 10 * b + a mod 10" "b = 10 * c + b mod 10"
    unfolding a_def b_def c_def by simp_all
  then show ?thesis unfolding b c a_def [symmetric] by linarith
qed

lemma re_Y_pad4: "n \<le> 9999 \<Longrightarrow> re_Y (pad4 n @ s) = [(n, s)]"
proof -
  assume n: "n \<le> 9999"
  then have "n div 1000 < 10" by simp
  then show ?thesis
    by (simp add: re_Y_def pad4_def digit_digit_char digit_val_digit_char four_digits)
qed


lemmas pad2_simps = alt_def two_pad2 one_pad2 between_digit_char eq_digit_char digit_def

lemma re_m_pad2:
  assumes "1 \<le> n" and "n \<le> 12"
  shows "re_m (pad2 n @ s)
           = (n, s) # (if 10 \<le> n then [(n div 10, digit_char (n mod 10) # s)] else [])"
proof (cases "n < 10")
  case True
  then have "n div 10 = 0" "n mod 10 = n" by simp_all
  with assms True show ?thesis by (simp add: re_m_def pad2_simps)
next
  case False
  with assms have "n div 10 = 1" "n mod 10 = n - 10" "n - 10 \<le> 2" by arith+
  with assms False show ?thesis by (simp add: re_m_def pad2_simps)
qed

lemma re_d_pad2:
  assumes "1 \<le> n" and "n \<le> 31"
  shows "re_d (pad2 n @ s)
           = (n, s) # (if 10 \<le> n then [(n div 10, digit_char (n mod 10) # s)] else [])"
proof -
  have d: "n div 10 < 10" "n mod 10 < 10" using assms by simp_all
  consider "n < 10" | "10 \<le> n" "n < 30" | "30 \<le> n" by linarith
  then show ?thesis
  proof cases
    case 1
    then have "n div 10 = 0" "n mod 10 = n" by simp_all
    with assms 1 show ?thesis by (simp add: re_d_def pad2_simps)
  next
    case 2
    then have "n div 10 = 1 \<or> n div 10 = 2" by linarith
    with assms 2 d show ?thesis by (auto simp: re_d_def pad2_simps)
  next
    case 3
    with assms have "n div 10 = 3" "n mod 10 = n - 30" "n - 30 \<le> 1" by arith+
    with assms 3 show ?thesis by (simp add: re_d_def pad2_simps)
  qed
qed

lemma re_H_pad2:
  assumes "n \<le> 23"
  shows "re_H (pad2 n @ s) = [(n, s), (n div 10, digit_char (n mod 10) # s)]"
proof -
  have d: "n div 10 < 10" "n mod 10 < 10" using assms by simp_all
  consider "n < 20" | "20 \<le> n" by linarith
  then show ?thesis
  proof cases
    case 1
    then have "n div 10 \<le> 1" by linarith
    with assms 1 d show ?thesis by (auto simp: re_H_def pad2_simps)
  next
    case 2
    with assms have "n div 10 = 2" "n mod 10 = n - 20" "n - 20 \<le> 3" by arith+
    with assms 2 show ?thesis by (simp add: re_H_def pad2_simps)
  qed
qed

lemma re_M_pad2:
  assumes "n \<le> 59"
  shows "re_M (pad2 n @ s) = [(n, s), (n div 10, digit_char (n mod 10) # s)]"
proof -
  have "n div 10 \<le> 5" "n mod 10 < 10" using assms by simp_all
  with assms show ?thesis by (simp add: re_M_def pad2_simps)
qed

lemma re_S_pad2:
  assumes "n \<le> 59"
  shows "re_S (pad2 n @ s) = [(n, s), (n div 10, digit_char (n mod 10) # s)]"
proof -
  have "n div 10 \<le> 5" "n mod 10 < 10" using assms by simp_all
  with assms show ?thesis by (simp add: re_S_def pad2_simps)
qed

lemma lit_accepts: "c \<in> set accepted \<Longrightarrow> lit accepted (c # r) = [((), r)]"
  by (simp add: lit_def)

lemma format_regex_instant_text:
  assumes "valid_datetime t"
  shows "format_regex (instant_text t)
           = [((year t, month t, day t, hour t, minute t, second t), [])]"
proof -
  from assms have y: "year t \<le> 9999" and m: "1 \<le> month t" "month t \<le> 12"
    and d: "1 \<le> day t" "day t \<le> 31" and H: "hour t \<le> 23"
    and M: "minute t \<le> 59" and S: "second t \<le> 59"
    by (auto simp: valid_datetime_def days_in_month_def split: if_splits)
  have k: "month t mod 10 < 10" "day t mod 10 < 10" "hour t mod 10 < 10"
    "minute t mod 10 < 10" "second t mod 10 < 10" by simp_all
  show ?thesis
    unfolding format_regex_def instant_text_def
    by (simp add: re_Y_pad4 [OF y] re_m_pad2 [OF m] re_d_pad2 [OF d] re_H_pad2 [OF H]
          re_M_pad2 [OF M] re_S_pad2 [OF S] lit_accepts lit_digit_char k)
qed

text \<open>Parsing the text of an instant gives the instant back.\<close>

lemma strptime_instant_text:
  "valid_datetime t \<Longrightarrow> strptime (VStr (instant_text t)) = Inr t"
  by (cases t) (simp add: strptime_def format_regex_instant_text)

lemma convert_field_Inr:
  assumes "convert_field k d = Inr d'"
  shows "(\<forall>s. map_of d k = Some (VStr s) \<longrightarrow>
            (\<exists>t. strptime (VStr s) = Inr t \<and> map_of d' k = Some (VDate t)))
         \<and> (\<forall>j. j \<noteq> k \<longrightarrow> map_of d' j = map_of d j)"
  using assms
  by (auto simp: convert_field_def update_conv' split: option.splits sum.splits)

lemma convert_field_keeps_date:
  assumes "convert_field k d = Inr d'" and "map_of d j = Some (VDate t)" and "j \<noteq> k"
  shows "map_of d' j = Some (VDate t)"
  using convert_field_Inr [OF assms(1)] assms(2,3) by simp

lemma convert_document_Inr:
  assumes "convert_document d = Inr d'" and "k \<in> {''order_date'', ''delivery_date''}"
    and "map_of d k = Some (VStr s)"
  shows "\<exists>t. strptime (VStr s) = Inr t \<and> map_of d' k = Some (VDate t)"
proof -
  from assms(1) obtain d1 where c1: "convert_field ''order_date'' d = Inr d1"
    and c2: "convert_field ''delivery_date'' d1 = Inr d'"
    by (auto simp: convert_document_def split: sum.splits)
  note p1 = convert_field_Inr [OF c1] and p2 = convert_field_Inr [OF c2]
  from assms(2) consider "k = ''order_date''" | "k = ''delivery_date''" by auto
  then show ?thesis
  proof cases
    case 1
    with p1 assms(3) obtain t where "strptime (VStr s) = Inr t" "map_of d1 k = Some (VDate t)"
      by blast
    moreover have "map_of d' k = map_of d1 k" using p2 1 by simp
    ultimately show ?thesis by auto
  next
    case 2
    then have "map_of d1 k = Some (VStr s)" using p1 assms(3) by simp
    with p2 2 show ?thesis by blast
  qed
qed

lemma convert_document_total:
  assumes "list_all (\<lambda>k. case map_of d k of
                            None \<Rightarrow> True
                          | Some v \<Rightarrow> (case strptime v of Inl e \<Rightarrow> False | Inr t \<Rightarrow> True))
             [''order_date'', ''delivery_date'']"
  shows "\<exists>d'. convert_document d = Inr d'"
  using assms
  by (auto simp: convert_document_def convert_field_def update_conv'
           split: option.splits sum.splits)

lemma convert_date_total:
  assumes "date_fields_parse json_data"
  shows "\<exists>result. convert_date json_data = Inr result"
proof -
  from assms have "\<forall>d\<in>set json_data. \<exists>d'. convert_document d = Inr d'"
    unfolding date_fields_parse_def list_all_iff
    by (intro ballI convert_document_total) (simp add: list_all_iff)
  then show ?thesis unfolding convert_date_def by (rule for_each_total)
qed

lemma convert_date_Inr:
  assumes "convert_date json_data = Inr result"
    and "i < length json_data" and "k \<in> {''order_date'', ''delivery_date''}"
    and "map_of (json_data ! i) k = Some (VStr s)"
  shows "\<exists>t. strptime (VStr s) = Inr t \<and> map_of (result ! i) k = Some (VDate t)"
proof -
  from assms(1,2) have "convert_document (json_data ! i) = Inr (result ! i)"
    unfolding convert_date_def by (simp add: for_each_Inr)
  then show ?thesis using assms(3,4) by (rule convert_document_Inr)
qed

text \<open>
  Claim C6. On a list in which every date field that is present holds a string in the
  format, \<^verbatim>\<open>convert_date\<close> returns. Whenever it returns, the list has the same length,
  and each document that held a string in \<^verbatim>\<open>order_date\<close> or \<^verbatim>\<open>delivery_date\<close> holds
  there the \<^verbatim>\<open>datetime\<close> that parsing this string with the format
  \<^verbatim>\<open>%Y-%m-%dT%H:%M:%SZ\<close> gives; where the string is the text of an instant, the field
  holds that instant.
\<close>

theorem convert_date_converts:
  "(date_fields_parse json_data \<longrightarrow> (\<exists>result. convert_date json_data = Inr result))
   \<and> (convert_date json_data = Inr result \<longrightarrow>
        length result = length json_data
        \<and> (\<forall>i<length json_data. \<forall>k\<in>{''order_date'', ''delivery_date''}. \<forall>s.
              map_of (json_data ! i) k = Some (VStr s) \<longrightarrow>
              (\<exists>t. strptime (VStr s) = Inr t \<and> map_of (result ! i) k = Some (VDate t)))
        \<and> (\<forall>i<length json_data. \<forall>k\<in>{''order_date'', ''delivery_date''}. \<forall>t.
              valid_datetime t \<longrightarrow>
              map_of (json_data ! i) k = Some (VStr (instant_text t)) \<longrightarrow>
              map_of (result ! i) k = Some (VDate t)))"
proof (intro conjI impI allI ballI)
  assume "date_fields_parse json_data"
  then show "\<exists>result. convert_date json_data = Inr result"
    by (rule convert_date_total)
next
  assume "convert_date json_data = Inr result"
  then show "length result = length json_data"
    unfolding convert_date_def by (simp add: for_each_Inr)
next
  fix i k s
  assume "convert_date json_data = Inr result" "i < length json_data"
    "k \<in> {''order_date'', ''delivery_date''}" "map_of (json_data ! i) k = Some (VStr s)"
  then show "\<exists>t. strptime (VStr s) = Inr t \<and> map_of (result ! i) k = Some (VDate t)"
    by (rule convert_date_Inr)
next
  fix i k t
  assume ret: "convert_date json_data = Inr result" and i: "i < length json_data"
    and k: "k \<in> {''order_date'', ''delivery_date''}" and t: "valid_datetime t"
    and s: "map_of (json_data ! i) k = Some (VStr (instant_text t))"
  from convert_date_Inr [OF ret i k s] strptime_instant_text [OF t]
  show "map_of (result ! i) k = Some (VDate t)" by simp
qed

theorem convert_date_converts_witness:
  "date_fields_parse
     [[(''order_date'', VStr ''2024-12-20T10:00:00Z''),
       (''delivery_date'', VStr ''2024-12-21T15:30:00Z'')]]
   \<and> convert_date
       [[(''order_date'', VStr ''2024-12-20T10:00:00Z''),
         (''delivery_date'', VStr ''2024-12-21T15:30:00Z'')]]
     = Inr [[(''order_date'',
               VDate \<lparr>year = 2024, month = 12, day = 20, hour = 10, minute = 0, second = 0\<rparr>),
             (''delivery_date'',
               VDate \<lparr>year = 2024, month = 12, day = 21, hour = 15, minute = 30, second = 0\<rparr>)]]
   \<and> strptime (VStr ''2024-12-20T10:00:00Z'')
     = Inr \<lparr>year = 2024, month = 12, day = 20, hour = 10, minute = 0, second = 0\<rparr>
   \<and> valid_datetime \<lparr>year = 2024, month = 12, day = 20, hour = 10, minute = 0, second = 0\<rparr>
   \<and> instant_text \<lparr>year = 2024, month = 12, day = 20, hour = 10, minute = 0, second = 0\<rparr>
     = ''2024-12-20T10:00:00Z''"
  using convert_date_converts
    [of "[[(''order_date'', VStr ''2024-12-20T10:00:00Z''),
           (''delivery_date'', VStr ''2024-12-21T15:30:00Z'')]]"
        "[[(''order_date'',
             VDate \<lparr>year = 2024, month = 12, day = 20, hour = 10, minute = 0, second = 0\<rparr>),
           (''delivery_date'',
             VDate \<lparr>year = 2024, month = 12, day = 21, hour = 15, minute = 30, second = 0\<rparr>)]]", THEN conjunct1]
  by (simp add: date_fields_parse_def convert_date_def convert_document_def convert_field_def
        strptime_def format_regex_def re_Y_def re_m_def re_d_def re_H_def re_M_def re_S_def
        alt_def two_def one_def lit_def digit_def digit_val_def between_def
        valid_datetime_def days_in_month_def leap_year_def
        instant_text_def pad2_def pad4_def digit_char_def char_of_eq_iff)

lemma load_document_Inr:
  assumes "load_document ObjectId d = Inr d'"
  shows "(\<forall>w x. map_of d ''_id'' = Some (VDoc w) \<longrightarrow> map_of w ''$oid'' = Some x \<longrightarrow>
            (\<exists>oid. ObjectId x = Inr oid \<and> map_of d' ''_id'' = Some oid))
         \<and> (\<forall>w. map_of d ''_id'' = Some (VDoc w) \<longrightarrow> map_of w ''$oid'' = None \<longrightarrow> d' = d)
         \<and> (\<forall>j. j \<noteq> ''_id'' \<longrightarrow> map_of d' j = map_of d j)"
  using assms
  by (auto simp: load_document_def getitem_def update_conv'
           split: option.splits sum.splits bool.splits)

text \<open>
  Claim C7 asks that an \<^verbatim>\<open>_id\<close> which is not wrapped is left unchanged. For an
  \<^verbatim>\<open>_id\<close> that is a number the membership test \<^verbatim>\<open>"$oid" in document["_id"]\<close> raises
  TypeError, whatever the constructor \<^verbatim>\<open>ObjectId\<close> does: nothing is loaded.
\<close>

theorem load_json_plain_id_raises:
  "load_json ObjectId [[(''_id'', VInt 1), (''name'', VStr ''Alice'')]] = Inl TypeError"
  by (simp add: load_json_def load_document_def getitem_def)

section \<open>Order creation\<close>

lemma insert_order_items_Inr:
  assumes "insert_order_items accepts db order_id product_orders s = Inr s'"
  shows "written_orders s' = written_orders s
         \<and> (\<exists>items g. written_order_items s' = written_order_items s @ items
               \<and> length items = length product_orders
               \<and> (\<forall>item\<in>set items. map_of item ''order_id'' = Some (id_val order_id))
               \<and> (product_orders \<noteq> [] \<longrightarrow>
                     generate_id_from_field (order_items db) ''order_item_id'' = Inr g)
               \<and> (\<forall>item\<in>set items. map_of item ''order_item_id'' = Some (id_val g))
               \<and> (\<forall>i<length items.
                     accepts OrderItems (order_items db @ written_order_items s @ take i items)
                       (items ! i)))"
  using assms
proof (induction product_orders arbitrary: s)
  case Nil
  then show ?case by simp
next
  case (Cons product rest)
  from Cons.prems obtain product_id quantity g price s1 where
    g: "generate_id_from_field (order_items db) ''order_item_id'' = Inr g"
    and ins: "insert_one accepts db OrderItems
               [(''order_item_id'', id_val g), (''order_id'', id_val order_id),
                (''product_id'', product_id), (''quantity'', quantity), (''price'', price)] s
              = Inr s1"
    and rest: "insert_order_items accepts db order_id rest s1 = Inr s'"
    by (auto split: sum.splits)
  define item where "item = [(''order_item_id'', id_val g), (''order_id'', id_val order_id),
                (''product_id'', product_id), (''quantity'', quantity), (''price'', price)]"
  from ins have acc: "accepts OrderItems (order_items db @ written_order_items s) item"
    and s1: "s1 = s\<lparr>written_order_items := written_order_items s @ [item]\<rparr>"
    by (auto simp: item_def split: if_splits)
  from Cons.IH [OF rest] obtain items g' where
    wo: "written_orders s' = written_orders s1"
    and wi: "written_order_items s' = written_order_items s1 @ items"
    and len: "length items = length rest"
    and oid: "\<forall>item\<in>set items. map_of item ''order_id'' = Some (id_val order_id)"
    and gen: "rest \<noteq> [] \<longrightarrow> generate_id_from_field (order_items db) ''order_item_id'' = Inr g'"
    and iid: "\<forall>item\<in>set items. map_of item ''order_item_id'' = Some (id_val g')"
    and accs: "\<forall>i<length items.
                 accepts OrderItems (order_items db @ written_order_items s1 @ take i items)
                   (items ! i)"
    by blast
  have iid': "\<forall>it\<in>set items. map_of it ''order_item_id'' = Some (id_val g)"
  proof (cases rest)
    case Nil
    with len show ?thesis by simp
  next
    case (Cons a list)
    with gen g have "g' = g" by simp
    with iid show ?thesis by simp
  qed
  have accs': "\<forall>i<length (item # items).
                 accepts OrderItems (order_items db @ written_order_items s @ take i (item # items))
                   ((item # items) ! i)"
  proof (intro allI impI)
    fix i assume i: "i < length (item # items)"
    show "accepts OrderItems (order_items db @ written_order_items s @ take i (item # items))
            ((item # items) ! i)"
    proof (cases i)
      case 0
      with acc show ?thesis by simp
    next
      case (Suc j)
      with i accs s1 show ?thesis by simp
    qed
  qed
  show ?case
  proof (intro conjI exI [of _ "item # items"] exI [of _ g])
    show "written_orders s' = written_orders s" using wo s1 by simp
    show "written_order_items s' = written_order_items s @ item # items" using wi s1 by simp
    show "length (item # items) = length (product # rest)" using len by simp
    show "\<forall>it\<in>set (item # items). map_of it ''order_id'' = Some (id_val order_id)"
      using oid by (simp add: item_def)
    show "product # rest \<noteq> [] \<longrightarrow>
            generate_id_from_field (order_items db) ''order_item_id'' = Inr g"
      using g by simp
    show "\<forall>it\<in>set (item # items). map_of it ''order_item_id'' = Some (id_val g)"
      using iid' by (simp add: item_def)
    show "\<forall>i<length (item # items).
            accepts OrderItems (order_items db @ written_order_items s @ take i (item # items))
              ((item # items) ! i)"
      by (rule accs')
  qed
qed

lemma order_writes_Inr:
  assumes "order_writes accepts db customer_id product_orders start_transaction = Inr (order_id, s)"
  shows "\<exists>order items g.
           written_orders s = [order] \<and> written_order_items s = items
           \<and> length items = length product_orders
           \<and> generate_id_from_field (orders db) ''order_id'' = Inr order_id
           \<and> map_of order ''order_id'' = Some (id_val order_id)
           \<and> map_of order ''customer_id'' = Some (VInt customer_id)
           \<and> accepts Orders (orders db) order
           \<and> (\<forall>item\<in>set items. map_of item ''order_id'' = Some (id_val order_id))
           \<and> (product_orders \<noteq> [] \<longrightarrow>
                 generate_id_from_field (order_items db) ''order_item_id'' = Inr g)
           \<and> (\<forall>item\<in>set items. map_of item ''order_item_id'' = Some (id_val g))
           \<and> (\<forall>i<length items. accepts OrderItems (order_items db @ take i items) (items ! i))"
proof -
  from assms obtain order_date s1 where
    g: "generate_id_from_field (orders db) ''order_id'' = Inr order_id"
    and ins: "insert_one accepts db Orders
               [(''order_id'', id_val order_id), (''customer_id'', VInt customer_id),
                (''order_date'', VDate order_date), (''status'', VStr ''Processing'')]
               start_transaction = Inr s1"
    and items: "insert_order_items accepts db order_id product_orders s1 = Inr s"
    by (auto simp: order_writes_def split: sum.splits)
  define order where "order = [(''order_id'', id_val order_id), (''customer_id'', VInt customer_id),
                (''order_date'', VDate order_date), (''status'', VStr ''Processing'')]"
  from ins have acc: "accepts Orders (orders db) order"
    and s1: "s1 = start_transaction\<lparr>written_orders := [order]\<rparr>"
    by (auto simp: order_def start_transaction_def split: if_splits)
  from insert_order_items_Inr [OF items] s1 g acc show ?thesis
    by (auto simp: start_transaction_def order_def)
qed

lemmas eval_defs = create_order_def order_writes_def commit_transaction_def abort_transaction_def
  start_transaction_def example_db_def id_val_def getitem_def
  generate_id_from_field_def aggregate_group_max_def field_values_def dollar_max_def
  bson_max_def cmp_int_def dict_get_def
  orders_validator_def order_items_validator_def unique_index_def has_fields_def property_def
  strptime_def format_regex_def re_Y_def re_m_def re_d_def re_H_def re_M_def re_S_def
  alt_def two_def one_def lit_def digit_def digit_val_def between_def
  valid_datetime_def days_in_month_def leap_year_def

lemma create_order_outcomes:
  "(\<exists>order_id order items.
      create_order accepts db customer_id product_orders
        = (db\<lparr>orders := orders db @ [order], order_items := order_items db @ items\<rparr>,
           OrderCreated order_id)
      \<and> length items = length product_orders
      \<and> map_of order ''order_id'' = Some (id_val order_id)
      \<and> map_of order ''customer_id'' = Some (VInt customer_id)
      \<and> (\<forall>item\<in>set items. map_of item ''order_id'' = Some (id_val order_id))
      \<and> accepts Orders (orders db) order
      \<and> (\<forall>i<length items. accepts OrderItems (order_items db @ take i items) (items ! i)))
   \<or> (\<exists>e. create_order accepts db customer_id product_orders = (db, ErrorOccurred e))"
proof (cases "order_writes accepts db customer_id product_orders start_transaction")
  case (Inl e)
  then show ?thesis by (simp add: create_order_def abort_transaction_def)
next
  case (Inr r)
  obtain order_id s where r: "r = (order_id, s)" by (cases r)
  from order_writes_Inr [OF Inr [unfolded r]] obtain order items where
    "written_orders s = [order]" "written_order_items s = items"
    "length items = length product_orders"
    "map_of order ''order_id'' = Some (id_val order_id)"
    "map_of order ''customer_id'' = Some (VInt customer_id)"
    "accepts Orders (orders db) order"
    "\<forall>item\<in>set items. map_of item ''order_id'' = Some (id_val order_id)"
    "\<forall>i<length items. accepts OrderItems (order_items db @ take i items) (items ! i)"
    by blast
  then have "create_order accepts db customer_id product_orders
        = (db\<lparr>orders := orders db @ [order], order_items := order_items db @ items\<rparr>,
           OrderCreated order_id)
      \<and> length items = length product_orders
      \<and> map_of order ''order_id'' = Some (id_val order_id)
      \<and> map_of order ''customer_id'' = Some (VInt customer_id)
      \<and> (\<forall>item\<in>set items. map_of item ''order_id'' = Some (id_val order_id))
      \<and> accepts Orders (orders db) order
      \<and> (\<forall>i<length items. accepts OrderItems (order_items db @ take i items) (items ! i))"
    using Inr r by (simp add: create_order_def commit_transaction_def)
  then show ?thesis by blast
qed

lemma getitem_line_item:
  assumes "line_item product" and "k \<in> {''product_id'', ''quantity'', ''price''}"
  shows "getitem product k = Inr (dict_get product k)"
  using assms by (auto simp: line_item_def has_fields_def getitem_def dict_get_def)

lemma strptime_order_date:
  "strptime (VStr ''2024-12-22T10:00:00Z'')
     = Inr \<lparr>year = 2024, month = 12, day = 22, hour = 10, minute = 0, second = 0\<rparr>"
  by (simp add: strptime_def format_regex_def re_Y_def re_m_def re_d_def re_H_def re_M_def
        re_S_def alt_def two_def one_def lit_def digit_def digit_val_def between_def
        valid_datetime_def days_in_month_def leap_year_def)

lemma insert_order_items_step:
  assumes "generate_id_from_field (order_items db) ''order_item_id'' = Inr g"
    and "line_item product"
  shows "insert_order_items accepts db order_id (product # rest) s
           = (if accepts OrderItems (order_items db @ written_order_items s)
                   (order_item_document g order_id product)
              then insert_order_items accepts db order_id rest
                     (s\<lparr>written_order_items :=
                          written_order_items s @ [order_item_document g order_id product]\<rparr>)
              else Inl WriteError)"
  using assms
  by (simp add: getitem_line_item order_item_document_def)

lemma insert_order_items_accepted:
  assumes "generate_id_from_field (order_items db) ''order_item_id'' = Inr g"
    and "list_all line_item product_orders"
    and "\<forall>i<length product_orders.
           accepts OrderItems
             (order_items db @ written_order_items s
                @ take i (order_item_documents g order_id product_orders))
             (order_item_documents g order_id product_orders ! i)"
  shows "insert_order_items accepts db order_id product_orders s
           = Inr (s\<lparr>written_order_items :=
                      written_order_items s @ order_item_documents g order_id product_orders\<rparr>)"
  using assms(2,3)
proof (induction product_orders arbitrary: s)
  case Nil
  then show ?case by (simp add: order_item_documents_def)
next
  case (Cons product rest)
  let ?d = "order_item_document g order_id product"
  let ?s = "s\<lparr>written_order_items := written_order_items s @ [?d]\<rparr>"
  from Cons.prems(1) have li: "line_item product" and rest: "list_all line_item rest" by simp_all
  from Cons.prems(2) [rule_format, of 0]
  have acc: "accepts OrderItems (order_items db @ written_order_items s) ?d"
    by (simp add: order_item_documents_def)
  have "\<forall>i<length rest.
          accepts OrderItems
            (order_items db @ written_order_items ?s @ take i (order_item_documents g order_id rest))
            (order_item_documents g order_id rest ! i)"
  proof (intro allI impI)
    fix i assume "i < length rest"
    with Cons.prems(2) [rule_format, of "Suc i"] show
      "accepts OrderItems
         (order_items db @ written_order_items ?s @ take i (order_item_documents g order_id rest))
         (order_item_documents g order_id rest ! i)"
      by (simp add: order_item_documents_def)
  qed
  from Cons.IH [OF rest this] acc show ?case
    by (simp add: insert_order_items_step [OF assms(1) li] order_item_documents_def
          del: insert_order_items.simps)
qed

lemma insert_order_items_rejected:
  assumes "generate_id_from_field (order_items db) ''order_item_id'' = Inr g"
    and "i < length product_orders"
    and "list_all line_item (take (Suc i) product_orders)"
    and "\<forall>j<i. accepts OrderItems
             (order_items db @ written_order_items s
                @ take j (order_item_documents g order_id product_orders))
             (order_item_documents g order_id product_orders ! j)"
    and "\<not> accepts OrderItems
             (order_items db @ written_order_items s
                @ take i (order_item_documents g order_id product_orders))
             (order_item_documents g order_id product_orders ! i)"
  shows "insert_order_items accepts db order_id product_orders s = Inl WriteError"
  using assms(2-5)
proof (induction product_orders arbitrary: s i)
  case Nil
  then show ?case by simp
next
  case (Cons product rest)
  let ?d = "order_item_document g order_id product"
  let ?s = "s\<lparr>written_order_items := written_order_items s @ [?d]\<rparr>"
  from Cons.prems(2) have li: "line_item product" by simp
  show ?case
  proof (cases i)
    case 0
    with Cons.prems(4) show ?thesis
      by (simp add: insert_order_items_step [OF assms(1) li] order_item_documents_def
            del: insert_order_items.simps)
  next
    case (Suc k)
    from Cons.prems(3) [rule_format, of 0] Suc
    have acc: "accepts OrderItems (order_items db @ written_order_items s) ?d"
      by (simp add: order_item_documents_def)
    have k: "k < length rest" using Cons.prems(1) Suc by simp
    have wf: "list_all line_item (take (Suc k) rest)" using Cons.prems(2) Suc by simp
    have prev: "\<forall>j<k. accepts OrderItems
             (order_items db @ written_order_items ?s
                @ take j (order_item_documents g order_id rest))
             (order_item_documents g order_id rest ! j)"
    proof (intro allI impI)
      fix j assume "j < k"
      with Cons.prems(3) [rule_format, of "Suc j"] Suc show
        "accepts OrderItems
           (order_items db @ written_order_items ?s
              @ take j (order_item_documents g order_id rest))
           (order_item_documents g order_id rest ! j)"
        by (simp add: order_item_documents_def)
    qed
    have rej: "\<not> accepts OrderItems
             (order_items db @ written_order_items ?s
                @ take k (order_item_documents g order_id rest))
             (order_item_documents g order_id rest ! k)"
      using Cons.prems(4) Suc by (simp add: order_item_documents_def)
    from Cons.IH [OF k wf prev rej] acc show ?thesis
      by (simp add: insert_order_items_step [OF assms(1) li] del: insert_order_items.simps)
  qed
qed

lemma order_writes_order:
  assumes "generate_id_from_field (orders db) ''order_id'' = Inr order_id"
  shows "order_writes accepts db customer_id product_orders start_transaction
           = (if accepts Orders (orders db) (order_document order_id customer_id)
              then (case insert_order_items accepts db order_id product_orders
                           \<lparr>written_orders = [order_document order_id customer_id],
                              written_order_items = []\<rparr> of
                      Inl e \<Rightarrow> Inl e
                    | Inr s \<Rightarrow> Inr (order_id, s))
              else Inl WriteError)"
  using assms
  by (simp add: order_writes_def strptime_order_date start_transaction_def order_document_def)

lemma create_order_committed:
  assumes "generate_id_from_field (orders db) ''order_id'' = Inr order_id"
    and "product_orders \<noteq> [] \<longrightarrow>
           generate_id_from_field (order_items db) ''order_item_id'' = Inr g"
    and "list_all line_item product_orders"
    and "accepts Orders (orders db) (order_document order_id customer_id)"
    and "\<forall>i<length product_orders.
           accepts OrderItems
             (order_items db @ take i (order_item_documents g order_id product_orders))
             (order_item_documents g order_id product_orders ! i)"
  shows "create_order accepts db customer_id product_orders
           = (db\<lparr>orders := orders db @ [order_document order_id customer_id],
                 order_items := order_items db
                    @ order_item_documents g order_id product_orders\<rparr>,
              OrderCreated order_id)"
proof (cases product_orders)
  case Nil
  with assms(1,4) show ?thesis
    by (simp add: create_order_def order_writes_order commit_transaction_def
          order_item_documents_def)
next
  case (Cons p ps)
  with assms(2) have g: "generate_id_from_field (order_items db) ''order_item_id'' = Inr g"
    by simp
  have "insert_order_items accepts db order_id product_orders
          \<lparr>written_orders = [order_document order_id customer_id], written_order_items = []\<rparr>
        = Inr \<lparr>written_orders = [order_document order_id customer_id],
               written_order_items = order_item_documents g order_id product_orders\<rparr>"
    using insert_order_items_accepted [OF g assms(3), of accepts
        "\<lparr>written_orders = [order_document order_id customer_id], written_order_items = []\<rparr>"
        order_id] assms(5)
    by simp
  with assms(1,4) show ?thesis
    by (simp add: create_order_def order_writes_order commit_transaction_def)
qed

lemma create_order_order_rejected:
  assumes "generate_id_from_field (orders db) ''order_id'' = Inr order_id"
    and "\<not> accepts Orders (orders db) (order_document order_id customer_id)"
  shows "create_order accepts db customer_id product_orders = (db, ErrorOccurred WriteError)"
  using assms by (simp add: create_order_def order_writes_order abort_transaction_def)

lemma create_order_item_rejected:
  assumes "generate_id_from_field (orders db) ''order_id'' = Inr order_id"
    and "accepts Orders (orders db) (order_document order_id customer_id)"
    and "generate_id_from_field (order_items db) ''order_item_id'' = Inr g"
    and "i < length product_orders"
    and "list_all line_item (take (Suc i) product_orders)"
    and "\<forall>j<i. accepts OrderItems
             (order_items db @ take j (order_item_documents g order_id product_orders))
             (order_item_documents g order_id product_orders ! j)"
    and "\<not> accepts OrderItems
             (order_items db @ take i (order_item_documents g order_id product_orders))
             (order_item_documents g order_id product_orders ! i)"
  shows "create_order accepts db customer_id product_orders = (db, ErrorOccurred WriteError)"
proof -
  have "insert_order_items accepts db order_id product_orders
          \<lparr>written_orders = [order_document order_id customer_id], written_order_items = []\<rparr>
        = Inl WriteError"
    using insert_order_items_rejected [OF assms(3,4,5), of accepts
        "\<lparr>written_orders = [order_document order_id customer_id], written_order_items = []\<rparr>"
        order_id] assms(6,7)
    by simp
  with assms(1,2) show ?thesis
    by (simp add: create_order_def order_writes_order abort_transaction_def)
qed

text \<open>
  Claim C2. A call of \<^verbatim>\<open>create_order\<close> with N line items has one of two outcomes,
  whatever the server's check of writes is. Either the call reports success and the
  database differs from the one before by exactly one new order and exactly N new order
  items, the order carrying the new order id and the customer id, every item carrying the
  order's order id, and every write having been accepted by the server. Or the call
  reports an error and the database is the one before: no order and no item is kept.
  The first outcome is the one of a call in which nothing fails: both identifiers are
  generated, every line item has its three keys and the server accepts every write; the
  documents kept are then the order and the order items the script builds. The second
  outcome is the one of a call in which a write fails: when the server rejects the order,
  and when it rejects the order item of a line item after having accepted the order and
  the items before it, the error reported is the write error and nothing is kept.
\<close>

theorem create_order_all_or_nothing:
  "((\<exists>order_id order items.
       create_order accepts db customer_id product_orders
         = (db\<lparr>orders := orders db @ [order], order_items := order_items db @ items\<rparr>,
            OrderCreated order_id)
       \<and> length items = length product_orders
       \<and> map_of order ''order_id'' = Some (id_val order_id)
       \<and> map_of order ''customer_id'' = Some (VInt customer_id)
       \<and> (\<forall>item\<in>set items. map_of item ''order_id'' = Some (id_val order_id))
       \<and> accepts Orders (orders db) order
       \<and> (\<forall>i<length items. accepts OrderItems (order_items db @ take i items) (items ! i)))
    \<or> (\<exists>e. create_order accepts db customer_id product_orders = (db, ErrorOccurred e)))
   \<and> (generate_id_from_field (orders db) ''order_id'' = Inr new_order_id \<longrightarrow>
        (product_orders \<noteq> [] \<longrightarrow>
           generate_id_from_field (order_items db) ''order_item_id'' = Inr new_item_id) \<longrightarrow>
        list_all line_item product_orders \<longrightarrow>
        accepts Orders (orders db) (order_document new_order_id customer_id) \<longrightarrow>
        (\<forall>i<length product_orders.
           accepts OrderItems
             (order_items db
                @ take i (order_item_documents new_item_id new_order_id product_orders))
             (order_item_documents new_item_id new_order_id product_orders ! i)) \<longrightarrow>
        create_order accepts db customer_id product_orders
          = (db\<lparr>orders := orders db @ [order_document new_order_id customer_id],
                order_items := order_items db
                   @ order_item_documents new_item_id new_order_id product_orders\<rparr>,
             OrderCreated new_order_id))
   \<and> (generate_id_from_field (orders db) ''order_id'' = Inr new_order_id \<longrightarrow>
        \<not> accepts Orders (orders db) (order_document new_order_id customer_id) \<longrightarrow>
        create_order accepts db customer_id product_orders = (db, ErrorOccurred WriteError))
   \<and> (generate_id_from_field (orders db) ''order_id'' = Inr new_order_id \<longrightarrow>
        accepts Orders (orders db) (order_document new_order_id customer_id) \<longrightarrow>
        generate_id_from_field (order_items db) ''order_item_id'' = Inr new_item_id \<longrightarrow>
        n < length product_orders \<longrightarrow>
        list_all line_item (take (Suc n) product_orders) \<longrightarrow>
        (\<forall>j<n. accepts OrderItems
                  (order_items db
                     @ take j (order_item_documents new_item_id new_order_id product_orders))
                  (order_item_documents new_item_id new_order_id product_orders ! j)) \<longrightarrow>
        \<not> accepts OrderItems
             (order_items db
                @ take n (order_item_documents new_item_id new_order_id product_orders))
             (order_item_documents new_item_id new_order_id product_orders ! n) \<longrightarrow>
        create_order accepts db customer_id product_orders = (db, ErrorOccurred WriteError))"
proof (intro conjI impI)
  show "(\<exists>order_id order items.
       create_order accepts db customer_id product_orders
         = (db\<lparr>orders := orders db @ [order], order_items := order_items db @ items\<rparr>,
            OrderCreated order_id)
       \<and> length items = length product_orders
       \<and> map_of order ''order_id'' = Some (id_val order_id)
       \<and> map_of order ''customer_id'' = Some (VInt customer_id)
       \<and> (\<forall>item\<in>set items. map_of item ''order_id'' = Some (id_val order_id))
       \<and> accepts Orders (orders db) order
       \<and> (\<forall>i<length items. accepts OrderItems (order_items db @ take i items) (items ! i)))
    \<or> (\<exists>e. create_order accepts db customer_id product_orders = (db, ErrorOccurred e))"
    by (rule create_order_outcomes)
next
  assume "generate_id_from_field (orders db) ''order_id'' = Inr new_order_id"
    "product_orders \<noteq> [] \<longrightarrow>
       generate_id_from_field (order_items db) ''order_item_id'' = Inr new_item_id"
    "list_all line_item product_orders"
    "accepts Orders (orders db) (order_document new_order_id customer_id)"
    "\<forall>i<length product_orders.
       accepts OrderItems
         (order_items db @ take i (order_item_documents new_item_id new_order_id product_orders))
         (order_item_documents new_item_id new_order_id product_orders ! i)"
  then show "create_order accepts db customer_id product_orders
          = (db\<lparr>orders := orders db @ [order_document new_order_id customer_id],
                order_items := order_items db
                   @ order_item_documents new_item_id new_order_id product_orders\<rparr>,
             OrderCreated new_order_id)"
    by (rule create_order_committed)
next
  assume "generate_id_from_field (orders db) ''order_id'' = Inr new_order_id"
    "\<not> accepts Orders (orders db) (order_document new_order_id customer_id)"
  then show "create_order accepts db customer_id product_orders = (db, ErrorOccurred WriteError)"
    by (rule create_order_order_rejected)
next
  assume "generate_id_from_field (orders db) ''order_id'' = Inr new_order_id"
    "accepts Orders (orders db) (order_document new_order_id customer_id)"
    "generate_id_from_field (order_items db) ''order_item_id'' = Inr new_item_id"
    "n < length product_orders"
    "list_all line_item (take (Suc n) product_orders)"
    "\<forall>j<n. accepts OrderItems
              (order_items db
                 @ take j (order_item_documents new_item_id new_order_id product_orders))
              (order_item_documents new_item_id new_order_id product_orders ! j)"
    "\<not> accepts OrderItems
         (order_items db @ take n (order_item_documents new_item_id new_order_id product_orders))
         (order_item_documents new_item_id new_order_id product_orders ! n)"
  then show "create_order accepts db customer_id product_orders = (db, ErrorOccurred WriteError)"
    by (rule create_order_item_rejected)
qed

theorem create_order_all_or_nothing_witness:
  "generate_id_from_field (orders example_db) ''order_id'' = Inr (Some 5002)
   \<and> generate_id_from_field (order_items example_db) ''order_item_id'' = Inr (Some 9002)
   \<and> line_item [(''product_id'', VInt 101), (''quantity'', VInt 3), (''price'', VInt 1200)]
   \<and> line_item [(''product_id'', VInt 102), (''quantity'', VInt 0), (''price'', VInt 800)]
   \<and> server_accepts Orders (orders example_db) (order_document (Some 5002) 1)
   \<and> server_accepts OrderItems (order_items example_db)
       (order_item_document (Some 9002) (Some 5002)
          [(''product_id'', VInt 101), (''quantity'', VInt 3), (''price'', VInt 1200)])
   \<and> \<not> server_accepts OrderItems
         (order_items example_db
            @ [order_item_document (Some 9002) (Some 5002)
                 [(''product_id'', VInt 101), (''quantity'', VInt 3), (''price'', VInt 1200)]])
         (order_item_document (Some 9002) (Some 5002)
            [(''product_id'', VInt 102), (''quantity'', VInt 0), (''price'', VInt 800)])
   \<and> create_order server_accepts example_db 1
       [[(''product_id'', VInt 101), (''quantity'', VInt 3), (''price'', VInt 1200)]]
     = (example_db
          \<lparr>orders := orders example_db @
             [[(''order_id'', VInt 5002), (''customer_id'', VInt 1),
               (''order_date'',
                  VDate \<lparr>year = 2024, month = 12, day = 22, hour = 10, minute = 0, second = 0\<rparr>),
               (''status'', VStr ''Processing'')]],
           order_items := order_items example_db @
             [[(''order_item_id'', VInt 9002), (''order_id'', VInt 5002),
               (''product_id'', VInt 101), (''quantity'', VInt 3), (''price'', VInt 1200)]]\<rparr>,
        OrderCreated (Some 5002))
   \<and> create_order server_accepts example_db 1
       [[(''product_id'', VInt 101), (''quantity'', VInt 3), (''price'', VInt 1200)],
        [(''product_id'', VInt 102), (''quantity'', VInt 0), (''price'', VInt 800)]]
     = (example_db, ErrorOccurred WriteError)"
proof -
  have gen: "generate_id_from_field (orders example_db) ''order_id'' = Inr (Some 5002)"
    "generate_id_from_field (order_items example_db) ''order_item_id'' = Inr (Some 9002)"
    by (simp_all add: eval_defs)
  have items: "line_item [(''product_id'', VInt 101), (''quantity'', VInt 3), (''price'', VInt 1200)]"
    "line_item [(''product_id'', VInt 102), (''quantity'', VInt 0), (''price'', VInt 800)]"
    by (simp_all add: line_item_def has_fields_def)
  have acc: "server_accepts Orders (orders example_db) (order_document (Some 5002) 1)"
    "server_accepts OrderItems (order_items example_db)
       (order_item_document (Some 9002) (Some 5002)
          [(''product_id'', VInt 101), (''quantity'', VInt 3), (''price'', VInt 1200)])"
    by (simp_all add: eval_defs order_document_def order_item_document_def)
  have rej: "\<not> server_accepts OrderItems
         (order_items example_db
            @ [order_item_document (Some 9002) (Some 5002)
                 [(''product_id'', VInt 101), (''quantity'', VInt 3), (''price'', VInt 1200)]])
         (order_item_document (Some 9002) (Some 5002)
            [(''product_id'', VInt 102), (''quantity'', VInt 0), (''price'', VInt 800)])"
    by (simp add: eval_defs order_item_document_def)
  note thm1 = create_order_all_or_nothing
    [of server_accepts example_db 1
        "[[(''product_id'', VInt 101), (''quantity'', VInt 3), (''price'', VInt 1200)]]"
        "Some 5002" "Some 9002" 0, THEN conjunct2, THEN conjunct1, rule_format]
  have ok: "create_order server_accepts example_db 1
       [[(''product_id'', VInt 101), (''quantity'', VInt 3), (''price'', VInt 1200)]]
     = (example_db
          \<lparr>orders := orders example_db @ [order_document (Some 5002) 1],
           order_items := order_items example_db @
             order_item_documents (Some 9002) (Some 5002)
               [[(''product_id'', VInt 101), (''quantity'', VInt 3), (''price'', VInt 1200)]]\<rparr>,
        OrderCreated (Some 5002))"
    using gen items(1) acc
    by (intro thm1) (simp_all add: order_item_documents_def)
  note thm2 = create_order_all_or_nothing
    [of server_accepts example_db 1
        "[[(''product_id'', VInt 101), (''quantity'', VInt 3), (''price'', VInt 1200)],
          [(''product_id'', VInt 102), (''quantity'', VInt 0), (''price'', VInt 800)]]"
        "Some 5002" "Some 9002" 1, THEN conjunct2, THEN conjunct2, THEN conjunct2, rule_format]
  have bad: "create_order server_accepts example_db 1
       [[(''product_id'', VInt 101), (''quantity'', VInt 3), (''price'', VInt 1200)],
        [(''product_id'', VInt 102), (''quantity'', VInt 0), (''price'', VInt 800)]]
     = (example_db, ErrorOccurred WriteError)"
    using gen items acc rej
    by (intro thm2) (simp_all add: order_item_documents_def)
  from gen items acc rej ok bad show ?thesis
    by (simp add: order_document_def order_item_documents_def order_item_document_def
          id_val_def dict_get_def)
qed

text \<open>
  Claim C8. \<^verbatim>\<open>create_order\<close> leaves the products collection (and the customers
  collection) as it was, on success and on failure: no stock is updated.
\<close>

theorem create_order_keeps_products:
  "products (fst (create_order accepts db customer_id product_orders)) = products db
   \<and> customers (fst (create_order accepts db customer_id product_orders)) = customers db"
  by (cases "order_writes accepts db customer_id product_orders start_transaction")
     (auto simp: create_order_def abort_transaction_def commit_transaction_def)

text \<open>
  The generator is called once for each line item, but it reads the committed
  \<^verbatim>\<open>order_items\<close> collection, which does not change before the commit: in a successful
  call every new order item carries the same \<^verbatim>\<open>order_item_id\<close>.
\<close>

lemma create_order_item_ids_equal:
  assumes "create_order accepts db customer_id product_orders = (db', OrderCreated order_id)"
    and "product_orders \<noteq> []"
  shows "\<exists>g. generate_id_from_field (order_items db) ''order_item_id'' = Inr g
           \<and> (\<forall>item\<in>set (drop (length (order_items db)) (order_items db')).
                 map_of item ''order_item_id'' = Some (id_val g))"
proof -
  from assms(1) obtain s where
    w: "order_writes accepts db customer_id product_orders start_transaction = Inr (order_id, s)"
    and db': "db' = commit_transaction db s"
    by (auto simp: create_order_def split: sum.splits)
  from order_writes_Inr [OF w] assms(2) db' show ?thesis
    by (auto simp: commit_transaction_def)
qed

text \<open>
  Claim C3 asks for one new identifier per order item. The call the script gives as its
  example, on a database whose greatest \<^verbatim>\<open>order_item_id\<close> is 9001, succeeds and stores
  two order items that both carry the identifier 9002.
\<close>

theorem create_order_two_items_same_id:
  "create_order server_accepts example_db 9999
     [[(''product_id'', VInt 9999), (''quantity'', VInt 2), (''price'', VInt 1200)],
      [(''product_id'', VInt 9999), (''quantity'', VInt 1), (''price'', VInt 800)]]
   = (example_db
        \<lparr>orders := orders example_db @
           [[(''order_id'', VInt 5002), (''customer_id'', VInt 9999),
             (''order_date'',
                VDate \<lparr>year = 2024, month = 12, day = 22, hour = 10, minute = 0, second = 0\<rparr>),
             (''status'', VStr ''Processing'')]],
         order_items := order_items example_db @
           [[(''order_item_id'', VInt 9002), (''order_id'', VInt 5002),
             (''product_id'', VInt 9999), (''quantity'', VInt 2), (''price'', VInt 1200)],
            [(''order_item_id'', VInt 9002), (''order_id'', VInt 5002),
             (''product_id'', VInt 9999), (''quantity'', VInt 1), (''price'', VInt 800)]]\<rparr>,
      OrderCreated (Some 5002))"
  by (simp add: eval_defs)

section \<open>Revenue by category\<close>

lemma update_twice: "AList.update k v (AList.update k w d) = AList.update k v d"
  by (induction d) auto

lemma lookup_unwind:
  "unwind k (lookup foreign lf ff k docs) =
     concat (map (\<lambda>d. map (\<lambda>p. AList.update k (VDoc p) d)
                         (filter (\<lambda>f. dict_get f ff = dict_get d lf) foreign)) docs)"
  by (simp add: unwind_def lookup_def update_conv' update_twice comp_def)

lemma filter_find:
  "distinct (map f xs) \<Longrightarrow>
   filter (\<lambda>x. f x = k) xs = (case find (\<lambda>x. f x = k) xs of None \<Rightarrow> [] | Some x \<Rightarrow> [x])"
proof (induction xs)
  case Nil
  then show ?case by simp
next
  case (Cons x xs)
  show ?case
  proof (cases "f x = k")
    case True
    have "f y \<noteq> k" if "y \<in> set xs" for y
    proof
      assume "f y = k"
      with that True have "f x \<in> f ` set xs" by (simp add: image_iff) metis
      with Cons.prems show False by simp
    qed
    then have "\<forall>y\<in>set xs. f y \<noteq> k" by simp
    then have "filter (\<lambda>x. f x = k) xs = []" by (simp add: filter_empty_conv)
    with True show ?thesis by simp
  next
    case False
    with Cons show ?thesis by simp
  qed
qed

lemma stored_int_dict_get:
  "stored_int (dict_get d k) \<Longrightarrow> map_of d k = Some (VInt (summand (dict_get d k)))"
  by (cases "map_of d k"; cases "dict_get d k") (auto simp: dict_get_def)

lemma revenue_expr:
  assumes "order_item_shaped item" and "product_shaped p"
    and "int64 (summand (dict_get item ''quantity'') * summand (dict_get p ''price''))"
  shows "multiply (get_path (AList.update ''product_info'' (VDoc p) item) [''quantity''])
           (get_path (AList.update ''product_info'' (VDoc p) item) [''product_info'', ''price''])
         = Inr (VInt (summand (dict_get item ''quantity'') * summand (dict_get p ''price'')))"
proof -
  from assms(1) have q: "map_of item ''quantity'' = Some (VInt (summand (dict_get item ''quantity'')))"
    by (simp add: order_item_shaped_def stored_int_dict_get)
  from assms(2) have pr: "map_of p ''price'' = Some (VInt (summand (dict_get p ''price'')))"
    by (simp add: product_shaped_def stored_int_dict_get)
  show ?thesis using assms(3) by (simp add: update_conv' q pr)
qed

lemma add_fields_map:
  "\<forall>x\<in>set xs. expr (h x) = Inr (v x) \<Longrightarrow>
   add_fields k expr (map h xs) = Inr (map (\<lambda>x. AList.update k (v x) (h x)) xs)"
  by (induction xs) simp_all

lemma matches_product_of:
  "distinct (map (\<lambda>p. dict_get p ''product_id'') prods) \<Longrightarrow>
   matches prods item = (case product_of prods item of None \<Rightarrow> [] | Some p \<Rightarrow> [p])"
  unfolding matches_def product_of_def by (rule filter_find)

lemma product_of_in: "product_of prods item = Some p \<Longrightarrow> p \<in> set prods"
  by (auto simp: product_of_def find_Some_iff)

lemma joined_row_category:
  "path_value (joined_row item p) [''product_info'', ''category''] = dict_get p ''category''"
  by (simp add: path_value_def joined_row_def update_conv' dict_get_def)

lemma joined_row_revenue:
  "path_value (joined_row item p) [''revenue'']
     = VInt (summand (dict_get item ''quantity'') * summand (dict_get p ''price''))"
  by (simp add: path_value_def joined_row_def update_conv')

lemma joined_pairs_set:
  "(item, p) \<in> set (joined_pairs items prods) \<Longrightarrow>
   item \<in> set items \<and> product_of prods item = Some p"
  by (auto simp: joined_pairs_def split: option.splits)

lemma joined_pairs_rows:
  "map (\<lambda>(item, p). joined_row item p) (joined_pairs items prods) = joined items prods"
  by (induction items) (simp_all add: joined_pairs_def joined_def split: option.splits)

lemma unwind_lookup_pairs:
  assumes "distinct (map (\<lambda>p. dict_get p ''product_id'') prods)"
  shows "unwind ''product_info'' (lookup prods ''product_id'' ''product_id'' ''product_info'' items)
           = map (\<lambda>(item, p). AList.update ''product_info'' (VDoc p) item)
               (joined_pairs items prods)"
proof -
  have "map (\<lambda>p. AList.update ''product_info'' (VDoc p) item)
          (filter (\<lambda>f. dict_get f ''product_id'' = dict_get item ''product_id'') prods)
        = map (\<lambda>(item, p). AList.update ''product_info'' (VDoc p) item)
            (case product_of prods item of None \<Rightarrow> [] | Some p \<Rightarrow> [(item, p)])" for item
    using matches_product_of [OF assms, of item]
    by (simp add: matches_def split: option.splits)
  then show ?thesis
    by (simp add: lookup_unwind joined_pairs_def map_concat comp_def)
qed

lemma first_stages:
  assumes "list_all order_item_shaped items" and "list_all product_shaped prods"
    and "distinct (map (\<lambda>p. dict_get p ''product_id'') prods)"
    and "revenues_fit items prods"
  shows "add_fields ''revenue''
           (\<lambda>d. multiply (get_path d [''quantity'']) (get_path d [''product_info'', ''price'']))
           (unwind ''product_info''
              (lookup prods ''product_id'' ''product_id'' ''product_info'' items))
         = Inr (joined items prods)"
proof -
  let ?expr = "\<lambda>d. multiply (get_path d [''quantity'']) (get_path d [''product_info'', ''price''])"
  let ?h = "\<lambda>(item, p). AList.update ''product_info'' (VDoc p) item"
  let ?v = "\<lambda>(item, p). VInt (summand (dict_get item ''quantity'') * summand (dict_get p ''price''))"
  have "\<forall>x\<in>set (joined_pairs items prods). ?expr (?h x) = Inr (?v x)"
  proof
    fix x assume x: "x \<in> set (joined_pairs items prods)"
    obtain item p where xp: "x = (item, p)" by (cases x)
    with x have item: "item \<in> set items" and p: "product_of prods item = Some p"
      by (auto dest: joined_pairs_set)
    from item assms(1) have s1: "order_item_shaped item" by (simp add: list_all_iff)
    from p assms(2) have s2: "product_shaped p"
      by (auto simp: list_all_iff dest: product_of_in)
    from assms(4) item p
    have fit: "int64 (summand (dict_get item ''quantity'') * summand (dict_get p ''price''))"
      by (auto simp: revenues_fit_def list_all_iff)
    from revenue_expr [OF s1 s2 fit] show "?expr (?h x) = Inr (?v x)" by (simp add: xp)
  qed
  then have "add_fields ''revenue'' ?expr (map ?h (joined_pairs items prods))
               = Inr (map (\<lambda>x. AList.update ''revenue'' (?v x) (?h x)) (joined_pairs items prods))"
    by (rule add_fields_map)
  moreover have "map (\<lambda>x. AList.update ''revenue'' (?v x) (?h x)) (joined_pairs items prods)
                   = joined items prods"
    unfolding joined_pairs_rows [symmetric]
    by (rule map_cong) (auto simp: joined_row_def)
  ultimately show ?thesis by (simp add: unwind_lookup_pairs [OF assms(3)])
qed

lemma sum_list_filter_concat:
  "sum_list (map f (filter P (concat (map g xs))))
     = sum_list (map (\<lambda>x. sum_list (map f (filter P (g x)))) xs)"
  by (induction xs) simp_all

lemma joined_keys:
  "map (\<lambda>d. path_value d [''product_info'', ''category'']) (joined items prods)
     = concat (map (\<lambda>item. case product_of prods item of
                             None \<Rightarrow> []
                           | Some p \<Rightarrow> [dict_get p ''category'']) items)"
  by (induction items) (simp_all add: joined_def joined_row_category split: option.splits)

lemma joined_total:
  "group_total [''product_info'', ''category''] [''revenue''] (joined items prods) c
     = reference_revenue items prods c"
proof -
  have "sum_list (map (\<lambda>d. summand (path_value d [''revenue'']))
          (filter (\<lambda>d. path_value d [''product_info'', ''category''] = c)
             (case product_of prods item of None \<Rightarrow> [] | Some p \<Rightarrow> [joined_row item p])))
        = (case product_of prods item of
             None \<Rightarrow> 0
           | Some p \<Rightarrow>
               if dict_get p ''category'' = c
               then summand (dict_get item ''quantity'') * summand (dict_get p ''price'')
               else 0)" for item
    by (simp add: joined_row_category joined_row_revenue split: option.splits)
  then show ?thesis
    unfolding group_total_def joined_def reference_revenue_def sum_list_filter_concat by simp
qed

lemma grouped_rows:
  assumes "revenues_fit items prods"
  shows "group_sum [''product_info'', ''category''] ''total_revenue'' [''revenue'']
           (joined items prods)
         = Inr (map (\<lambda>c. [(''_id'', c), (''total_revenue'', VInt (reference_revenue items prods c))])
                  (reference_categories items prods))"
  using assms
  by (simp add: group_sum_def joined_total joined_keys reference_categories_def revenues_fit_def)

lemma projected_rows:
  "map project
     (map (\<lambda>c. [(''_id'', c), (''total_revenue'', VInt (reference_revenue items prods c))])
        (reference_categories items prods))
   = reference_rows items prods"
  by (simp add: reference_rows_def project_def comp_def)

lemma mset_insert_desc: "mset (insert_desc k d docs) = add_mset d (mset docs)"
  by (induction docs) simp_all

lemma mset_sort_desc: "mset (sort_desc k docs) = mset docs"
  unfolding sort_desc_def by (induction docs) (simp_all add: mset_insert_desc)

lemma set_insert_desc: "set (insert_desc k d docs) = insert d (set docs)"
  by (induction docs) auto

lemma revenue_desc_insert:
  assumes "revenue_desc docs"
    and "\<forall>e\<in>set (d # docs). is_int (dict_get e ''total_revenue'')"
  shows "revenue_desc (insert_desc ''total_revenue'' d docs)"
  using assms
proof (induction docs)
  case Nil
  then show ?case by (simp add: revenue_desc_def)
next
  case (Cons e es)
  from Cons.prems(2) obtain a b where a: "dict_get e ''total_revenue'' = VInt a"
    and b: "dict_get d ''total_revenue'' = VInt b"
    by (cases "dict_get e ''total_revenue''"; cases "dict_get d ''total_revenue''") auto
  show ?case
  proof (cases "b < a")
    case True
    from Cons.prems have "revenue_desc es"
      and ints: "\<forall>x\<in>set (d # es). is_int (dict_get x ''total_revenue'')"
      by (simp_all add: revenue_desc_def)
    from Cons.IH [OF this] have "revenue_desc (insert_desc ''total_revenue'' d es)" .
    moreover have "\<forall>x\<in>set (insert_desc ''total_revenue'' d es).
                     summand (dict_get x ''total_revenue'') \<le> summand (dict_get e ''total_revenue'')"
      using Cons.prems(1) True a b by (auto simp: set_insert_desc revenue_desc_def)
    ultimately show ?thesis
      using True a b by (simp add: revenue_desc_def cmp_int_def)
  next
    case False
    with Cons.prems(1) a b show ?thesis
      by (auto simp: revenue_desc_def cmp_int_def)
  qed
qed

lemma revenue_desc_sort:
  "\<forall>e\<in>set docs. is_int (dict_get e ''total_revenue'') \<Longrightarrow>
   revenue_desc (sort_desc ''total_revenue'' docs)"
proof (induction docs)
  case Nil
  then show ?case by (simp add: sort_desc_def revenue_desc_def)
next
  case (Cons d docs)
  then have "revenue_desc (sort_desc ''total_revenue'' docs)" by simp
  moreover have "\<forall>e\<in>set (d # sort_desc ''total_revenue'' docs).
                   is_int (dict_get e ''total_revenue'')"
    using Cons.prems mset_sort_desc [of "''total_revenue''" docs]
    by (metis set_mset_mset set_ConsD list.set_intros(1) list.set_intros(2))
  ultimately have "revenue_desc (insert_desc ''total_revenue'' d (sort_desc ''total_revenue'' docs))"
    by (rule revenue_desc_insert)
  then show ?case by (simp add: sort_desc_def)
qed

lemma reference_rows_int:
  "\<forall>e\<in>set (reference_rows items prods). is_int (dict_get e ''total_revenue'')"
  by (auto simp: reference_rows_def dict_get_def)

lemma order_items_validator_shaped: "order_items_validator d \<Longrightarrow> order_item_shaped d"
  by (cases "map_of d ''product_id''"; cases "map_of d ''quantity''";
      cases "dict_get d ''product_id''"; cases "dict_get d ''quantity''")
     (auto simp: order_items_validator_def order_item_shaped_def has_fields_def property_def
        dict_get_def int64_def)

text \<open>
  Claim C5, as the code has it. For order items and products of the presupposed shape,
  where the revenue of every order item and the total of every category fit a signed
  64-bit integer, the pipeline succeeds; its rows are, up to their order, the rows of the
  reference computation (one row for each category, whose \<^verbatim>\<open>total_revenue\<close> is the sum
  of quantity times product price over the order items whose product belongs to the
  category); and they come in descending order of \<^verbatim>\<open>total_revenue\<close>.
\<close>

theorem pipeline_revenue_by_category:
  assumes "list_all order_item_shaped items"
    and "list_all product_shaped prods"
    and "distinct (map (\<lambda>p. dict_get p ''product_id'') prods)"
    and "revenues_fit items prods"
  shows "\<exists>rows. pipeline items prods = Inr rows
           \<and> mset rows = mset (reference_rows items prods)
           \<and> revenue_desc rows"
proof -
  have "pipeline items prods = Inr (sort_desc ''total_revenue'' (reference_rows items prods))"
    unfolding pipeline_def first_stages [OF assms]
    by (simp add: grouped_rows [OF assms(4)] projected_rows del: map_map)
  moreover have "mset (sort_desc ''total_revenue'' (reference_rows items prods))
                   = mset (reference_rows items prods)"
    by (rule mset_sort_desc)
  moreover have "revenue_desc (sort_desc ''total_revenue'' (reference_rows items prods))"
    by (rule revenue_desc_sort [OF reference_rows_int])
  ultimately show ?thesis by blast
qed

lemmas pipeline_eval = pipeline_def unwind_def lookup_def group_sum_def group_total_def
  path_value_def project_def sort_desc_def cmp_int_def reference_revenue_def
  reference_categories_def product_of_def dict_get_def int64_def
  order_item_shaped_def product_shaped_def revenues_fit_def

theorem pipeline_revenue_by_category_witness:
  "list_all order_item_shaped ex_items
   \<and> list_all product_shaped ex_products
   \<and> distinct (map (\<lambda>p. dict_get p ''product_id'') ex_products)
   \<and> revenues_fit ex_items ex_products
   \<and> pipeline ex_items ex_products
     = Inr [[(''total_revenue'', VInt 3600), (''product_category'', VStr ''Electronics'')],
            [(''total_revenue'', VInt 600), (''product_category'', VStr ''Furniture'')]]
   \<and> reference_revenue ex_items ex_products (VStr ''Electronics'') = 3600
   \<and> reference_revenue ex_items ex_products (VStr ''Furniture'') = 600"
  using pipeline_revenue_by_category [of ex_items ex_products]
  by (simp add: ex_items_def ex_products_def pipeline_eval)

text \<open>
  Without the bound the comparison fails. Three order items of quantity 2147483647 for a
  product of price 2147483647 pass the validator of their collection; the revenue of the
  category by hand is 13835058042397261827, which no 64-bit integer holds, and the
  server's answer carries a floating-point total in its place.
\<close>

theorem pipeline_overflow_counterexample:
  "list_all order_items_validator big_items
   \<and> list_all order_item_shaped big_items
   \<and> list_all product_shaped big_products
   \<and> distinct (map (\<lambda>p. dict_get p ''product_id'') big_products)
   \<and> reference_revenue big_items big_products (VStr ''Electronics'') = 13835058042397261827
   \<and> \<not> int64 (reference_revenue big_items big_products (VStr ''Electronics''))
   \<and> pipeline big_items big_products = Inl FloatingPoint"
  by (simp add: big_items_def big_products_def pipeline_eval order_items_validator_def
        has_fields_def property_def)

section \<open>Filename derivation\<close>

lemma translate_Nil: "translate table [] = []"
  by (simp add: translate_def)

lemma translate_Cons:
  "translate table (c # s) =
     (case map_of table c of None \<Rightarrow> [c] | Some r \<Rightarrow> r) @ translate table s"
  by (simp add: translate_def)

lemma translate_replace_dict:
  "translate replace_dict s =
     map (\<lambda>c. if c \<in> {CHR '','', CHR ''!'', CHR ''?'', CHR '' '', CHR '':''} then CHR ''_'' else c) s"
  by (induction s) (simp_all add: translate_Nil translate_Cons replace_dict_def)

text \<open>
  Claim C4, as the code has it. The filename is the save directory, followed by the title in
  which every comma, exclamation mark, question mark, space and colon is replaced by one
  underscore each (every other character is kept), followed by a dot and the configured
  extension. Two adjacent replaced characters give two underscores: the title
  \<^verbatim>\<open>Revenue: Q1, 2024!\<close> yields \<^verbatim>\<open>Revenue__Q1__2024_.webp\<close> under the save directory.
\<close>

theorem title_to_filename_replaces:
  "title_to_filename title save_dir =
     save_dir
     @ map (\<lambda>c. if c \<in> {CHR '','', CHR ''!'', CHR ''?'', CHR '' '', CHR '':''}
                 then CHR ''_'' else c) title
     @ ''.'' @ format
   \<and> title_to_filename ''Revenue: Q1, 2024!'' save_dir
       = save_dir @ ''Revenue__Q1__2024_.webp''"
  by (simp add: title_to_filename_def translate_replace_dict format_def)

text \<open>
  The file name the specification gives for that title, \<^verbatim>\<open>Revenue_Q1_2024_.webp\<close>, is not
  what the function returns, neither with an empty save directory nor under the
  configured one.
\<close>

theorem title_to_filename_example_counterexample:
  "title_to_filename ''Revenue: Q1, 2024!'' [] \<noteq> ''Revenue_Q1_2024_.webp''
   \<and> title_to_filename ''Revenue: Q1, 2024!'' PLOTS \<noteq> PLOTS @ ''Revenue_Q1_2024_.webp''"
  by (simp add: title_to_filename_def translate_replace_dict format_def)

section \<open>Interactive rendering\<close>

text \<open>
  Claim C10. With the interactive flag set, whatever the save-only and display-only flags
  are, \<^verbatim>\<open>show_plot\<close> on a figure only shows the figure: the call succeeds even for a
  figure without a title (no filename is derived), the only effect is \<^verbatim>\<open>fig.show()\<close>, no
  image is written, the files on disk are the same and nothing is returned.
\<close>

theorem show_plot_interactive_only_renders:
  "show_plot fs (Some fig) save_only display_only save_dir True
     = Inr \<lparr>files = fs, trace = [FigShow fig], returned = None\<rparr>
   \<and> (\<exists>r. show_plot fs (Some fig) save_only display_only save_dir True = Inr r
          \<and> files r = fs \<and> filter writes_image (trace r) = [])"
  by (simp add: show_plot_def)

end
